theory Spec2Isabelle
  imports Complex_Main "HOL-Library.AList"
begin

section \<open>Values and failures of the script\<close>

text \<open>
  The script \<^verbatim>\<open>scripts/create-stats-csv.py\<close> works on what \<^verbatim>\<open>json.load\<close> returns:
  \<^verbatim>\<open>None\<close>, booleans, integers, floats, strings, lists, and dictionaries with string
  keys. The only other value it can create is a complex number (a negative float raised
  to the power \<^verbatim>\<open>0.5\<close>). Floats are idealised as reals here: rounding, infinities and
  NaN come in only with the double-precision model of \<^verbatim>\<open>normalize_stats\<close> further down, where
  they decide the result. A dictionary is an association list in insertion order;
  \<^verbatim>\<open>json.load\<close> never produces a repeated key.
\<close>

datatype pyval =
    PNone
  | PBool bool
  | PInt int
  | PFloat real
  | PComplex complex
  | PStr string
  | PList "pyval list"
  | PDict "(string \<times> pyval) list"

type_synonym dict = "(string \<times> pyval) list"

text \<open>The exceptions the script can end with; each \<^verbatim>\<open>raise\<close> is an \<open>Inl\<close>.\<close>

datatype error =
    KeyError
  | IndexError
  | ValueError
  | TypeError
  | ZeroDivisionError
  | OverflowError
  | ExternalError string

definition and_then :: "error + 'a \<Rightarrow> ('a \<Rightarrow> error + 'b) \<Rightarrow> error + 'b" where
  "and_then m f = (case m of Inl e \<Rightarrow> Inl e | Inr x \<Rightarrow> f x)"

text \<open>\<^verbatim>\<open>d[k]\<close> on a dictionary, and on any value (only a dictionary accepts a string key).\<close>

definition dict_getitem :: "dict \<Rightarrow> string \<Rightarrow> error + pyval" where
  "dict_getitem d k = (case map_of d k of None \<Rightarrow> Inl KeyError | Some v \<Rightarrow> Inr v)"

definition getitem :: "pyval \<Rightarrow> string \<Rightarrow> error + pyval" where
  "getitem v k = (case v of PDict d \<Rightarrow> dict_getitem d k | _ \<Rightarrow> Inl TypeError)"

text \<open>
  \<^verbatim>\<open>d.update(...)\<close>: the pairs are stored left to right; an existing key keeps its
  place, a new key goes to the end.
\<close>

definition dict_update :: "dict \<Rightarrow> (string \<times> pyval) list \<Rightarrow> dict" where
  "dict_update d kvs = fold (\<lambda>(k, v) acc. AList.update k v acc) kvs d"

subsection \<open>Arithmetic\<close>

text \<open>
  The numbers of the arithmetic in \<^verbatim>\<open>normalize_stats\<close>: a float or a complex.
  \<^verbatim>\<open>bool\<close> is a subclass of \<^verbatim>\<open>int\<close>; every other value is not a number.
\<close>

datatype pynum = NFloat real | NComplex complex

definition as_num :: "pyval \<Rightarrow> pynum option" where
  "as_num v = (case v of
      PBool b \<Rightarrow> Some (NFloat (of_bool b))
    | PInt i \<Rightarrow> Some (NFloat (of_int i))
    | PFloat r \<Rightarrow> Some (NFloat r)
    | PComplex z \<Rightarrow> Some (NComplex z)
    | _ \<Rightarrow> None)"

definition to_complex :: "pynum \<Rightarrow> complex" where
  "to_complex n = (case n of NFloat r \<Rightarrow> of_real r | NComplex z \<Rightarrow> z)"

definition num_is_zero :: "pynum \<Rightarrow> bool" where
  "num_is_zero n = (case n of NFloat r \<Rightarrow> r = 0 | NComplex z \<Rightarrow> z = 0)"

definition num_div :: "pynum \<Rightarrow> pynum \<Rightarrow> pynum" where
  "num_div a b = (case (a, b) of
      (NFloat x, NFloat y) \<Rightarrow> NFloat (x / y)
    | _ \<Rightarrow> NComplex (to_complex a / to_complex b))"

definition num_mul :: "pynum \<Rightarrow> pynum \<Rightarrow> pynum" where
  "num_mul a b = (case (a, b) of
      (NFloat x, NFloat y) \<Rightarrow> NFloat (x * y)
    | _ \<Rightarrow> NComplex (to_complex a * to_complex b))"

definition num_sub :: "pynum \<Rightarrow> pynum \<Rightarrow> pynum" where
  "num_sub a b = (case (a, b) of
      (NFloat x, NFloat y) \<Rightarrow> NFloat (x - y)
    | _ \<Rightarrow> NComplex (to_complex a - to_complex b))"

text \<open>
  \<^verbatim>\<open>a / b\<close>: true division. Operand types are checked first (\<^verbatim>\<open>TypeError\<close>), then
  the divisor (\<^verbatim>\<open>ZeroDivisionError\<close>); the quotient of two integers is a float.
\<close>

definition py_truediv :: "pyval \<Rightarrow> pyval \<Rightarrow> error + pynum" where
  "py_truediv a b = (case (as_num a, as_num b) of
      (Some x, Some y) \<Rightarrow> if num_is_zero y then Inl ZeroDivisionError else Inr (num_div x y)
    | _ \<Rightarrow> Inl TypeError)"

text \<open>
  \<^verbatim>\<open>v ** 0.5\<close>. Python 3 raises no error for a negative float: the result is the
  principal complex root. For a float \<open>v \<ge> 0\<close> it is the real square root.
\<close>

definition pow_half :: "pynum \<Rightarrow> pynum" where
  "pow_half n = (case n of
      NFloat v \<Rightarrow> if v < 0 then NComplex (csqrt (of_real v)) else NFloat (sqrt v)
    | NComplex z \<Rightarrow> NComplex (csqrt z))"

definition of_num :: "pynum \<Rightarrow> pyval" where
  "of_num n = (case n of NFloat r \<Rightarrow> PFloat r | NComplex z \<Rightarrow> PComplex z)"

section \<open>The moment normalizer: \<^verbatim>\<open>normalize_stats\<close>\<close>

text \<open>
  \<^verbatim>\<open>
  def normalize_stats(st: dict):
      count = st['count']
      mean = st['sum'] / count
      var = st['sum_2'] / count - mean * mean
      std = var ** 0.5
      st.update(mean=mean, std_dev=std)
      return st
  \<close>
  The dictionary is changed in place and returned; the model returns the new dictionary.
\<close>

definition normalize_stats :: "pyval \<Rightarrow> error + dict" where
  "normalize_stats st =
     and_then (getitem st ''count'') (\<lambda>count.
     and_then (getitem st ''sum'') (\<lambda>s.
     and_then (py_truediv s count) (\<lambda>mean.
     and_then (getitem st ''sum_2'') (\<lambda>s2.
     and_then (py_truediv s2 count) (\<lambda>q.
       let var = num_sub q (num_mul mean mean);
           std = pow_half var
       in (case st of
             PDict d \<Rightarrow> Inr (dict_update d [(''mean'', of_num mean), (''std_dev'', of_num std)])
           | _ \<Rightarrow> Inl TypeError))))))"

text \<open>
  The Accumulator of the data model: an integer \<open>count \<ge> 0\<close> and real \<open>sum\<close> and
  \<open>sum_2\<close> (the sum of squares), read from the dictionary the code receives.
\<close>

definition field_real :: "dict \<Rightarrow> string \<Rightarrow> real option" where
  "field_real d k = (case map_of d k of
      Some v \<Rightarrow> (case as_num v of Some (NFloat r) \<Rightarrow> Some r | _ \<Rightarrow> None)
    | None \<Rightarrow> None)"

definition is_accumulator :: "dict \<Rightarrow> int \<Rightarrow> real \<Rightarrow> real \<Rightarrow> bool" where
  "is_accumulator d n x y =
     (map_of d ''count'' = Some (PInt n) \<and> 0 \<le> n \<and>
      field_real d ''sum'' = Some x \<and> field_real d ''sum_2'' = Some y)"

definition variance :: "int \<Rightarrow> real \<Rightarrow> real \<Rightarrow> real" where
  "variance n x y = y / of_int n - (x / of_int n) * (x / of_int n)"

section \<open>The geodetic resolver: \<^verbatim>\<open>degree_to_float\<close>\<close>

text \<open>
  A Python string is modelled by its UTF-8 bytes. Every byte of a character outside
  ASCII is at least \<open>0x80\<close>, so it is neither a digit nor a dot nor a letter: the
  fragments of the split and the test of the last character are the same on bytes and
  on code points.
\<close>

definition is_digit :: "char \<Rightarrow> bool" where
  "is_digit c = (48 \<le> (of_char c :: nat) \<and> (of_char c :: nat) \<le> 57)"

definition is_num_char :: "char \<Rightarrow> bool" where
  "is_num_char c = (is_digit c \<or> c = CHR ''.'')"

text \<open>
  \<^verbatim>\<open>GPS_RE = re.compile('[^0-9.]+')\<close> and \<^verbatim>\<open>GPS_RE.split(deg_str)\<close>: the text before
  the next match is a fragment, the match is the longest run of characters outside
  \<^verbatim>\<open>0-9.\<close>, and the split goes on after it. \<^verbatim>\<open>re.split\<close> keeps empty fragments.
\<close>

function GPS_RE_split :: "string \<Rightarrow> string list" where
  "GPS_RE_split s =
     (let frag = takeWhile is_num_char s;
          rest = dropWhile is_num_char s
      in if rest = [] then [frag]
         else frag # GPS_RE_split (dropWhile (\<lambda>c. \<not> is_num_char c) rest))"
  by pat_completeness auto
termination
proof (relation "measure length")
  show "wf (measure length)" by simp
next
  fix s :: string and frag rest
  assume rest: "rest = dropWhile is_num_char s" and ne: "rest \<noteq> []"
  from ne obtain c cs where cs: "rest = c # cs" by (cases rest) auto
  have "dropWhile is_num_char s = c # cs"
    using rest cs by simp
  then have "\<not> is_num_char c"
    by (simp add: dropWhile_eq_Cons_conv)
  then have "dropWhile (\<lambda>c. \<not> is_num_char c) rest = dropWhile (\<lambda>c. \<not> is_num_char c) cs"
    by (simp add: cs)
  then have "length (dropWhile (\<lambda>c. \<not> is_num_char c) rest) \<le> length cs"
    by (simp add: length_dropWhile_le)
  also have "length cs < length rest" by (simp add: cs)
  also have "length rest \<le> length s" by (simp add: rest length_dropWhile_le)
  finally show "(dropWhile (\<lambda>c. \<not> is_num_char c) rest, s) \<in> measure length" by simp
qed

declare GPS_RE_split.simps [simp del]

text \<open>
  \<^verbatim>\<open>float(frag)\<close> for a fragment of the split, a string of digits and dots: digits with
  at most one dot and at least one digit give their decimal value, anything else raises
  \<^verbatim>\<open>ValueError\<close>. (Signs, exponents, blanks and the like never reach \<^verbatim>\<open>float\<close> here:
  they are separators of the split.)
\<close>

definition digits_value :: "string \<Rightarrow> nat" where
  "digits_value ds = fold (\<lambda>c n. 10 * n + ((of_char c :: nat) - 48)) ds 0"

definition py_float :: "string \<Rightarrow> error + real" where
  "py_float s =
     (let ip = takeWhile is_digit s;
          rest = dropWhile is_digit s
      in if rest = [] then (if ip = [] then Inl ValueError else Inr (real (digits_value ip)))
         else if hd rest = CHR ''.'' \<and> list_all is_digit (tl rest) \<and> (ip \<noteq> [] \<or> tl rest \<noteq> [])
           then Inr (real (digits_value ip)
                     + real (digits_value (tl rest)) / 10 ^ length (tl rest))
         else Inl ValueError)"

text \<open>\<^verbatim>\<open>xs[i]\<close> for an index \<open>i \<ge> 0\<close>.\<close>

definition list_index :: "'a list \<Rightarrow> nat \<Rightarrow> error + 'a" where
  "list_index xs i = (if i < length xs then Inr (xs ! i) else Inl IndexError)"

text \<open>
  \<^verbatim>\<open>
  def degree_to_float(deg_str):
      deg_comps = GPS_RE.split(deg_str)
      deg_float = float(deg_comps[0]) + float(deg_comps[1]) / 60. + float(deg_comps[2]) / 3600.
      if deg_str[-1] == "S" or deg_str[-1] == "W": deg_float = -deg_float
      return deg_float
  \<close>
  The operands are evaluated left to right. A value that is not a string makes
  \<^verbatim>\<open>GPS_RE.split\<close> raise \<^verbatim>\<open>TypeError\<close>.
\<close>

definition degree_to_float :: "pyval \<Rightarrow> error + real" where
  "degree_to_float deg_str = (case deg_str of
      PStr s \<Rightarrow>
        (let deg_comps = GPS_RE_split s in
         and_then (list_index deg_comps 0) (\<lambda>c0.
         and_then (py_float c0) (\<lambda>d.
         and_then (list_index deg_comps 1) (\<lambda>c1.
         and_then (py_float c1) (\<lambda>m.
         and_then (list_index deg_comps 2) (\<lambda>c2.
         and_then (py_float c2) (\<lambda>sec.
           let deg_float = d + m / 60 + sec / 3600
           in if s = [] then Inl IndexError
              else Inr (if last s = CHR ''S'' \<or> last s = CHR ''W''
                        then - deg_float else deg_float))))))))
    | _ \<Rightarrow> Inl TypeError)"

section \<open>The report assembler: \<^verbatim>\<open>add_gps_coords\<close> and \<^verbatim>\<open>main\<close>\<close>

text \<open>
  What the script takes from outside: the metadata file of a record, read and parsed
  (\<^verbatim>\<open>json.load(open(p))\<close>), and the \<^verbatim>\<open>pyproj\<close> transformer (\<^verbatim>\<open>Transformer.from_crs\<close>
  and its \<^verbatim>\<open>transform\<close>). Each can fail with an error of its own.
\<close>

record 'tr env =
  load_json :: "pyval \<Rightarrow> error + pyval"
  from_crs :: "int \<Rightarrow> int \<Rightarrow> error + 'tr"
  transform :: "'tr \<Rightarrow> real \<Rightarrow> real \<Rightarrow> error + real \<times> real"

text \<open>
  The parsed command line: \<^verbatim>\<open>args.gps\<close> (\<^verbatim>\<open>store_true\<close>) and \<^verbatim>\<open>args.epsg\<close> (an
  optional int). \<^verbatim>\<open>get_args\<close> declares the two options one by one, with no relation
  between them, so every pair of values can reach \<^verbatim>\<open>main\<close>.
\<close>

record args =
  gps :: bool
  epsg :: "int option"

text \<open>
  \<^verbatim>\<open>
  def add_gps_coords(stat, proj_t: Transformer = None):
      exif = json.load(open(stat['path']))
      if isinstance(exif, list): exif = exif[0]
      lat = degree_to_float(exif['GPSLatitude'])
      lon = degree_to_float(exif['GPSLongitude'])
      stat['latitude'] = lat
      stat['longitude'] = lon
      if proj_t is not None:
          (east, north) = proj_t.transform(lat, lon)
          stat['easting'] = east
          stat['northing'] = north
  \<close>
\<close>

definition add_gps_coords :: "'tr env \<Rightarrow> dict \<Rightarrow> 'tr option \<Rightarrow> error + dict" where
  "add_gps_coords env stat proj_t =
     and_then (dict_getitem stat ''path'') (\<lambda>p.
     and_then (load_json env p) (\<lambda>exif0.
     and_then (case exif0 of PList xs \<Rightarrow> list_index xs 0 | _ \<Rightarrow> Inr exif0) (\<lambda>exif.
     and_then (getitem exif ''GPSLatitude'') (\<lambda>lat_str.
     and_then (degree_to_float lat_str) (\<lambda>lat.
     and_then (getitem exif ''GPSLongitude'') (\<lambda>lon_str.
     and_then (degree_to_float lon_str) (\<lambda>lon.
       let stat1 = AList.update ''latitude'' (PFloat lat) stat;
           stat2 = AList.update ''longitude'' (PFloat lon) stat1
       in (case proj_t of
             None \<Rightarrow> Inr stat2
           | Some t \<Rightarrow>
               and_then (transform env t lat lon) (\<lambda>(east, north).
                 Inr (AList.update ''northing'' (PFloat north)
                       (AList.update ''easting'' (PFloat east) stat2)))))))))))"

text \<open>
  \<^verbatim>\<open>
  proj_t = None
  if args.gps and args.epsg:
      proj_t = Transformer.from_crs(4326, args.epsg)
  \<close>
  The test is on the truth value of \<^verbatim>\<open>args.epsg\<close>: \<^verbatim>\<open>None\<close> and \<^verbatim>\<open>0\<close> are both false.
\<close>

definition make_proj :: "'tr env \<Rightarrow> args \<Rightarrow> error + 'tr option" where
  "make_proj env a = (case epsg a of
      Some e \<Rightarrow> if gps a \<and> e \<noteq> 0
                then and_then (from_crs env 4326 e) (\<lambda>t. Inr (Some t))
                else Inr None
    | None \<Rightarrow> Inr None)"

text \<open>
  The body of the loop:
  \<^verbatim>\<open>
      stat = normalize_stats(im_stat['stats'])
      im_stat.update(**stat)
      if args.gps: add_gps_coords(im_stat, proj_t=proj_t)
      df.append(im_stat)
  \<close>
  \<^verbatim>\<open>normalize_stats\<close> changes the dictionary \<^verbatim>\<open>im_stat['stats']\<close> in place, so the entry
  \<^verbatim>\<open>'stats'\<close> of the record holds the normalized dictionary afterwards.
\<close>

definition image_row :: "'tr env \<Rightarrow> args \<Rightarrow> 'tr option \<Rightarrow> pyval \<Rightarrow> error + dict" where
  "image_row env a proj_t im_stat =
     and_then (getitem im_stat ''stats'') (\<lambda>st.
     and_then (normalize_stats st) (\<lambda>stat.
       (case im_stat of
          PDict d \<Rightarrow>
            let d1 = AList.update ''stats'' (PDict stat) d;
                d2 = dict_update d1 stat
            in if gps a then add_gps_coords env d2 proj_t else Inr d2
        | _ \<Rightarrow> Inl TypeError)))"

text \<open>\<^verbatim>\<open>for im_stat in ...: ...; df.append(im_stat)\<close>, with \<open>df\<close> the list built so far.\<close>

fun image_rows ::
  "'tr env \<Rightarrow> args \<Rightarrow> 'tr option \<Rightarrow> dict list \<Rightarrow> pyval list \<Rightarrow> error + dict list" where
  "image_rows env a proj_t df [] = Inr df"
| "image_rows env a proj_t df (im_stat # rest) =
     and_then (image_row env a proj_t im_stat) (\<lambda>r.
       image_rows env a proj_t (df @ [r]) rest)"

text \<open>
  What a \<^verbatim>\<open>for\<close> loop iterates over: the items of a list, the keys of a dictionary,
  the characters of a string (here its bytes; the body of the loop fails on a string
  item in either reading); any other value is not iterable.
\<close>

definition py_iter :: "pyval \<Rightarrow> error + pyval list" where
  "py_iter v = (case v of
      PList xs \<Rightarrow> Inr xs
    | PDict d \<Rightarrow> Inr (map (\<lambda>(k, _). PStr k) d)
    | PStr s \<Rightarrow> Inr (map (\<lambda>c. PStr [c]) s)
    | _ \<Rightarrow> Inl TypeError)"

text \<open>
  \<^verbatim>\<open>df = P.DataFrame(df)\<close> and \<^verbatim>\<open>df = df[cols]\<close>: the frame of a list of dictionaries has
  the union of their keys as columns, and a cell is missing where the row has no such
  key. Selecting a list of columns raises \<^verbatim>\<open>KeyError\<close> when one of them is not a column
  of the frame. The table is what \<^verbatim>\<open>to_csv\<close> then writes: the header and one line of
  cells per row, a missing cell written empty.
\<close>

record table =
  columns :: "string list"
  rows :: "pyval option list list"

definition frame_columns :: "dict list \<Rightarrow> string set" where
  "frame_columns df = (\<Union>r \<in> set df. fst ` set r)"

definition select_columns :: "string list \<Rightarrow> dict list \<Rightarrow> error + table" where
  "select_columns cols df =
     (if set cols \<subseteq> frame_columns df
      then Inr \<lparr>columns = cols, rows = map (\<lambda>r. map (map_of r) cols) df\<rparr>
      else Inl KeyError)"

text \<open>
  \<^verbatim>\<open>
  cols = 'path,width,height,min,max,mean,std_dev'.split(',')
  if args.gps:
      cols = cols + ['latitude', 'longitude']
      if args.epsg is not None:
          cols = cols + ['easting', 'northing']
  \<close>
\<close>

definition output_cols :: "args \<Rightarrow> string list" where
  "output_cols a =
     (let cols = [''path'', ''width'', ''height'', ''min'', ''max'', ''mean'', ''std_dev'']
      in if gps a
         then (let cols1 = cols @ [''latitude'', ''longitude'']
               in if epsg a \<noteq> None then cols1 @ [''easting'', ''northing''] else cols1)
         else cols)"

text \<open>
  \<^verbatim>\<open>main\<close>, from the parsed arguments and the parsed document of standard input to the
  table written, or to the exception that ends the run.
\<close>

definition main :: "'tr env \<Rightarrow> args \<Rightarrow> pyval \<Rightarrow> error + table" where
  "main env a stats_json =
     and_then (make_proj env a) (\<lambda>proj_t.
     and_then (getitem stats_json ''image_stats'') (\<lambda>image_stats.
     and_then (py_iter image_stats) (\<lambda>ims.
     and_then (image_rows env a proj_t [] ims) (\<lambda>df.
     and_then (getitem stats_json ''cumulative'') (\<lambda>cumulative.
     and_then (normalize_stats cumulative) (\<lambda>tot.
       let tot1 = dict_update tot [(''path'', PStr ''cumulative'')]
       in select_columns (output_cols a) (df @ [tot1])))))))"

text \<open>
  The keys an input document brings along: those of each image record and of its
  \<^verbatim>\<open>stats\<close> dictionary, and those of the \<^verbatim>\<open>cumulative\<close> dictionary. In the data
  model they are \<open>path\<close>, \<open>width\<close>, \<open>height\<close>, \<open>stats\<close> and \<open>count\<close>, \<open>sum\<close>, \<open>sum_2\<close>,
  \<open>min\<close>, \<open>max\<close>.
\<close>

definition record_keys :: "pyval \<Rightarrow> string set" where
  "record_keys im = (case im of
      PDict d \<Rightarrow> fst ` set d \<union>
        (case map_of d ''stats'' of Some (PDict sd) \<Rightarrow> fst ` set sd | _ \<Rightarrow> {})
    | _ \<Rightarrow> {})"

definition input_keys :: "pyval \<Rightarrow> string set" where
  "input_keys doc =
     (case and_then (getitem doc ''image_stats'') py_iter of
        Inr ims \<Rightarrow> (\<Union>im \<in> set ims. record_keys im)
      | Inl _ \<Rightarrow> {}) \<union>
     (case getitem doc ''cumulative'' of
        Inr (PDict c) \<Rightarrow> fst ` set c
      | _ \<Rightarrow> {})"

text \<open>
  A well-formed input of the data model: an Accumulator with \<open>count \<ge> 1\<close>, real \<open>sum\<close>
  and \<open>sum_2\<close>, and \<open>min\<close> and \<open>max\<close>; a RawRecord with \<open>path\<close>, \<open>width\<close>, \<open>height\<close> and
  such an Accumulator as \<open>stats\<close>.
\<close>

definition accumulator_ok :: "dict \<Rightarrow> bool" where
  "accumulator_ok sd =
     ((case map_of sd ''count'' of Some (PInt n) \<Rightarrow> 1 \<le> n | _ \<Rightarrow> False) \<and>
      field_real sd ''sum'' \<noteq> None \<and> field_real sd ''sum_2'' \<noteq> None \<and>
      map_of sd ''min'' \<noteq> None \<and> map_of sd ''max'' \<noteq> None)"

definition raw_record_ok :: "pyval \<Rightarrow> bool" where
  "raw_record_ok im = (case im of
      PDict d \<Rightarrow>
        map_of d ''path'' \<noteq> None \<and> map_of d ''width'' \<noteq> None \<and>
        map_of d ''height'' \<noteq> None \<and>
        (case map_of d ''stats'' of Some (PDict sd) \<Rightarrow> accumulator_ok sd | _ \<Rightarrow> False)
    | _ \<Rightarrow> False)"

section \<open>The moment normalizer in double precision\<close>

text \<open>
  Whether \<^verbatim>\<open>var\<close> in line 25 is negative is decided by the rounding of the divisions,
  the product and the difference: data of exact variance \<open>0\<close> can give a negative
  \<^verbatim>\<open>var\<close>. For the power of line 26 the arithmetic of \<^verbatim>\<open>normalize_stats\<close> is therefore
  modelled a second time, in IEEE 754 binary64 as Python's \<^verbatim>\<open>float\<close> has it.

  A float is a finite double, an infinity or a NaN. \<open>Fin r\<close> is the finite double of
  value \<open>r\<close>; the sign of a zero is not kept (no operation of \<^verbatim>\<open>normalize_stats\<close>
  depends on it).
\<close>

datatype fl = Fin real | PosInf | NegInf | NaN






text \<open>
  What \<^verbatim>\<open>json.load\<close> returns, with floats as doubles, and what a dictionary can hold
  after \<^verbatim>\<open>normalize_stats\<close>: such a value or a complex number.
\<close>

datatype json =
    JNull
  | JBool bool
  | JInt int
  | JFloat fl
  | JStr string
  | JList "json list"
  | JObj "(string \<times> json) list"














section \<open>Concrete inputs\<close>

text \<open>The accumulator, the image record and the document of the scenario of the specification.\<close>

definition acc_scenario :: dict where
  "acc_scenario = [(''count'', PInt 4), (''sum'', PInt 40), (''sum_2'', PInt 408),
                   (''min'', PInt 1), (''max'', PInt 19)]"

definition im_scenario :: pyval where
  "im_scenario = PDict [(''path'', PStr ''a.jpg''), (''width'', PInt 10),
                        (''height'', PInt 10), (''stats'', PDict acc_scenario)]"

definition doc_scenario :: pyval where
  "doc_scenario = PDict [(''image_stats'', PList [im_scenario]),
                         (''cumulative'', PDict acc_scenario)]"

text \<open>The same document without any image record.\<close>

definition doc_no_images :: pyval where
  "doc_no_images = PDict [(''image_stats'', PList []), (''cumulative'', PDict acc_scenario)]"

text \<open>
  The row the loop makes of the image record of the scenario when geolocation is off,
  and the cumulative row.
\<close>

definition row_scenario :: dict where
  "row_scenario = [(''path'', PStr ''a.jpg''), (''width'', PInt 10), (''height'', PInt 10),
     (''stats'', PDict (acc_scenario @ [(''mean'', PFloat 10), (''std_dev'', PFloat (sqrt 2))])),
     (''count'', PInt 4), (''sum'', PInt 40), (''sum_2'', PInt 408),
     (''min'', PInt 1), (''max'', PInt 19), (''mean'', PFloat 10), (''std_dev'', PFloat (sqrt 2))]"

definition tot_scenario :: dict where
  "tot_scenario = acc_scenario @ [(''mean'', PFloat 10), (''std_dev'', PFloat (sqrt 2)),
                                 (''path'', PStr ''cumulative'')]"

definition acc_empty :: dict where
  "acc_empty = [(''count'', PInt 0), (''sum'', PInt 0), (''sum_2'', PInt 0),
                (''min'', PInt 0), (''max'', PInt 0)]"

text \<open>
  The strings \<^verbatim>\<open>40d26'46"N\<close> and \<^verbatim>\<open>79d58'56"W\<close> with the degree sign for \<^verbatim>\<open>d\<close> (the bytes
  \<open>0xC2 0xB0\<close>), and \<^verbatim>\<open>40d26'N\<close>, which lacks the seconds.
\<close>

definition lat_example :: string where
  "lat_example = ''40'' @ [CHR 0xC2, CHR 0xB0] @ ''26'' @ [CHR 0x27] @ ''46'' @ [CHR 0x22] @ ''N''"

definition lon_example :: string where
  "lon_example = ''79'' @ [CHR 0xC2, CHR 0xB0] @ ''58'' @ [CHR 0x27] @ ''56'' @ [CHR 0x22] @ ''W''"

definition no_seconds_example :: string where
  "no_seconds_example = ''40'' @ [CHR 0xC2, CHR 0xB0] @ ''26'' @ [CHR 0x27] @ ''N''"

text \<open>
  A metadata file for \<^verbatim>\<open>a.jpg\<close> and a transformer standing in for \<^verbatim>\<open>pyproj\<close> (it swaps
  the two coordinates), to run the geolocation modes on the scenario.
\<close>

definition exif_example :: pyval where
  "exif_example = PList [PDict [(''GPSLatitude'', PStr lat_example),
                                (''GPSLongitude'', PStr lon_example)]]"

definition env_example :: "unit env" where
  "env_example =
     \<lparr>load_json = (\<lambda>p. if p = PStr ''a.jpg'' then Inr exif_example
                        else Inl (ExternalError ''FileNotFoundError'')),
      from_crs = (\<lambda>src dst. Inr ()),
      transform = (\<lambda>t lat lon. Inr (lon, lat))\<rparr>"


section \<open>Properties\<close>

subsection \<open>Dictionaries and the error monad\<close>

lemma map_of_dict_update2:
  "map_of (dict_update d [(k1, v1), (k2, v2)]) k =
     (if k = k2 then Some v2 else if k = k1 then Some v1 else map_of d k)"
  by (simp add: dict_update_def update_conv)

lemma keys_dict_update:
  "fst ` set (dict_update d kvs) = fst ` set d \<union> fst ` set kvs"
  unfolding dict_update_def
  by (induction kvs arbitrary: d) (simp_all add: dom_update case_prod_beta Un_assoc)

lemma and_then_Inr_iff:
  "and_then m f = Inr y \<longleftrightarrow> (\<exists>x. m = Inr x \<and> f x = Inr y)"
  by (cases m) (simp_all add: and_then_def)

lemma and_then_Inr [simp]: "and_then (Inr x) f = f x"
  by (simp add: and_then_def)

lemma and_then_Inl [simp]: "and_then (Inl e) f = Inl e"
  by (simp add: and_then_def)

lemma getitem_Inr_iff:
  "getitem v k = Inr x \<longleftrightarrow> (\<exists>d. v = PDict d \<and> map_of d k = Some x)"
  by (cases v) (auto simp add: getitem_def dict_getitem_def split: option.splits)

subsection \<open>The moment normalizer\<close>

lemma field_realD:
  assumes "field_real d k = Some r"
  obtains v where "map_of d k = Some v" and "as_num v = Some (NFloat r)"
  using assms unfolding field_real_def
  by (auto split: option.splits pynum.splits)

lemma py_truediv_real:
  assumes "as_num a = Some (NFloat x)" and "as_num b = Some (NFloat y)" and "y \<noteq> 0"
  shows "py_truediv a b = Inr (NFloat (x / y))"
  using assms by (simp add: py_truediv_def num_is_zero_def num_div_def)

lemma normalize_stats_accumulator:
  assumes acc: "is_accumulator d n x y" and n: "n \<noteq> 0"
  shows "normalize_stats (PDict d) =
           Inr (dict_update d [(''mean'', PFloat (x / of_int n)),
                               (''std_dev'', of_num (pow_half (NFloat (variance n x y))))])"
proof -
  from acc have c: "map_of d ''count'' = Some (PInt n)"
    by (simp add: is_accumulator_def)
  from acc obtain s where s: "map_of d ''sum'' = Some s" "as_num s = Some (NFloat x)"
    by (auto simp add: is_accumulator_def elim: field_realD)
  from acc obtain s2 where s2: "map_of d ''sum_2'' = Some s2" "as_num s2 = Some (NFloat y)"
    by (auto simp add: is_accumulator_def elim: field_realD)
  have cn: "as_num (PInt n) = Some (NFloat (of_int n))"
    by (simp add: as_num_def)
  from n have n': "(of_int n :: real) \<noteq> 0" by simp
  have m: "py_truediv s (PInt n) = Inr (NFloat (x / of_int n))"
    by (rule py_truediv_real [OF s(2) cn n'])
  have q: "py_truediv s2 (PInt n) = Inr (NFloat (y / of_int n))"
    by (rule py_truediv_real [OF s2(2) cn n'])
  show ?thesis
    by (simp add: normalize_stats_def getitem_def dict_getitem_def c s s2 m q
        num_mul_def num_sub_def of_num_def variance_def)
qed

lemma normalize_stats_InrD:
  assumes "normalize_stats st = Inr d'"
  obtains d m s where "st = PDict d" and "d' = dict_update d [(''mean'', m), (''std_dev'', s)]"
proof (cases st)
  case (PDict d)
  with assms show ?thesis
    by (auto simp add: normalize_stats_def and_then_Inr_iff Let_def intro: that)
qed (use assms in \<open>simp_all add: normalize_stats_def getitem_def\<close>)

lemma pow_half_nonneg: "0 \<le> v \<Longrightarrow> of_num (pow_half (NFloat v)) = PFloat (sqrt v)"
  by (simp add: pow_half_def of_num_def)

lemma is_accumulator_scenario: "is_accumulator acc_scenario 4 40 408"
  by (simp add: is_accumulator_def acc_scenario_def field_real_def as_num_def)

lemma is_accumulator_empty: "is_accumulator acc_empty 0 0 0"
  by (simp add: is_accumulator_def acc_empty_def field_real_def as_num_def)

text \<open>
  Claim C8. For every Accumulator with \<open>count \<ge> 1\<close>, \<^verbatim>\<open>normalize_stats\<close> returns with
  \<open>mean = sum / count\<close>; for \<open>count = 4\<close>, \<open>sum = 40\<close>, \<open>sum_2 = 408\<close> it gives
  \<open>mean = 10\<close> and \<open>std_dev = sqrt 2\<close>.
\<close>

theorem normalize_mean:
  "(is_accumulator d n x y \<and> 1 \<le> n \<longrightarrow>
      (\<exists>d'. normalize_stats (PDict d) = Inr d' \<and>
             map_of d' ''mean'' = Some (PFloat (x / of_int n)))) \<and>
   (is_accumulator d 4 40 408 \<longrightarrow>
      (\<exists>d'. normalize_stats (PDict d) = Inr d' \<and>
             map_of d' ''mean'' = Some (PFloat 10) \<and>
             map_of d' ''std_dev'' = Some (PFloat (sqrt 2))))"
proof (intro conjI impI)
  assume a: "is_accumulator d n x y \<and> 1 \<le> n"
  then have "n \<noteq> 0" by auto
  from normalize_stats_accumulator [OF conjunct1 [OF a] this]
  show "\<exists>d'. normalize_stats (PDict d) = Inr d' \<and>
             map_of d' ''mean'' = Some (PFloat (x / of_int n))"
    by (simp add: map_of_dict_update2)
next
  assume a: "is_accumulator d 4 40 408"
  have n: "(4::int) \<noteq> 0" by simp
  have v1: "variance 4 40 408 = 2" by (simp add: variance_def)
  from normalize_stats_accumulator [OF a n]
  show "\<exists>d'. normalize_stats (PDict d) = Inr d' \<and>
             map_of d' ''mean'' = Some (PFloat 10) \<and>
             map_of d' ''std_dev'' = Some (PFloat (sqrt 2))"
    by (simp add: map_of_dict_update2 v1 pow_half_nonneg)
qed

theorem normalize_mean_witness:
  "is_accumulator acc_scenario 4 40 408 \<and> (1::int) \<le> 4 \<and>
   (\<exists>d'. normalize_stats (PDict acc_scenario) = Inr d' \<and>
          map_of d' ''mean'' = Some (PFloat (40 / 4)) \<and>
          map_of d' ''std_dev'' = Some (PFloat (sqrt 2)))"
  using normalize_mean [of acc_scenario 4 40 408] is_accumulator_scenario
  by auto

text \<open>
  Claim C9. On an Accumulator with \<open>count = 0\<close>, \<^verbatim>\<open>normalize_stats\<close> fails with
  \<^verbatim>\<open>ZeroDivisionError\<close> (an \<^verbatim>\<open>ArithmeticError\<close>): nothing guards the division.
\<close>

theorem normalize_empty_accumulator:
  assumes "is_accumulator d 0 x y"
  shows "normalize_stats (PDict d) = Inl ZeroDivisionError"
proof -
  from assms have c: "map_of d ''count'' = Some (PInt 0)"
    by (simp add: is_accumulator_def)
  from assms obtain s where s: "map_of d ''sum'' = Some s" "as_num s = Some (NFloat x)"
    by (auto simp add: is_accumulator_def elim: field_realD)
  have z: "as_num (PInt 0) = Some (NFloat 0)"
    by (simp add: as_num_def)
  have "py_truediv s (PInt 0) = Inl ZeroDivisionError"
    by (simp add: py_truediv_def s(2) z num_is_zero_def)
  then show ?thesis
    by (simp add: normalize_stats_def getitem_def dict_getitem_def c s)
qed

theorem normalize_empty_accumulator_witness:
  "is_accumulator acc_empty 0 0 0 \<and> normalize_stats (PDict acc_empty) = Inl ZeroDivisionError"
  using normalize_empty_accumulator [OF is_accumulator_empty] is_accumulator_empty
  by simp

text \<open>
  Claim C10. For every Accumulator with \<open>count \<ge> 1\<close>, \<^verbatim>\<open>normalize_stats\<close> returns the
  dictionary with \<open>min\<close>, \<open>max\<close>, \<open>count\<close>, \<open>sum\<close> and \<open>sum_2\<close> (and every key other than
  \<open>mean\<close> and \<open>std_dev\<close>) as they were; the keys \<open>mean\<close> and \<open>std_dev\<close> are all it adds.
\<close>

theorem normalize_frame:
  assumes "is_accumulator d n x y" and "1 \<le> n"
  shows "\<exists>d'. normalize_stats (PDict d) = Inr d' \<and>
           map_of d' ''min'' = map_of d ''min'' \<and>
           map_of d' ''max'' = map_of d ''max'' \<and>
           map_of d' ''count'' = map_of d ''count'' \<and>
           map_of d' ''sum'' = map_of d ''sum'' \<and>
           map_of d' ''sum_2'' = map_of d ''sum_2'' \<and>
           (\<forall>k. k \<noteq> ''mean'' \<and> k \<noteq> ''std_dev'' \<longrightarrow> map_of d' k = map_of d k) \<and>
           fst ` set d' = fst ` set d \<union> {''mean'', ''std_dev''}"
proof -
  from assms(2) have "n \<noteq> 0" by simp
  note r = normalize_stats_accumulator [OF assms(1) this]
  show ?thesis
    unfolding r by (simp add: map_of_dict_update2 keys_dict_update)
qed

theorem normalize_frame_witness:
  "is_accumulator acc_scenario 4 40 408 \<and> (1::int) \<le> 4 \<and>
   (\<exists>d'. normalize_stats (PDict acc_scenario) = Inr d' \<and>
          map_of d' ''min'' = Some (PInt 1) \<and>
          map_of d' ''max'' = Some (PInt 19) \<and>
          map_of d' ''count'' = Some (PInt 4) \<and>
          map_of d' ''sum'' = Some (PInt 40) \<and>
          map_of d' ''sum_2'' = Some (PInt 408))"
proof -
  have one: "(1::int) \<le> 4" by simp
  from normalize_frame [OF is_accumulator_scenario one]
  obtain d' where d': "normalize_stats (PDict acc_scenario) = Inr d'"
    "map_of d' ''min'' = map_of acc_scenario ''min''"
    "map_of d' ''max'' = map_of acc_scenario ''max''"
    "map_of d' ''count'' = map_of acc_scenario ''count''"
    "map_of d' ''sum'' = map_of acc_scenario ''sum''"
    "map_of d' ''sum_2'' = map_of acc_scenario ''sum_2''"
    by blast
  then show ?thesis
    using is_accumulator_scenario by (simp add: acc_scenario_def)
qed


subsection \<open>The moment normalizer in double precision\<close>




















subsection \<open>The split of \<^verbatim>\<open>GPS_RE\<close>\<close>

lemma GPS_RE_split_end:
  "dropWhile is_num_char s = [] \<Longrightarrow> GPS_RE_split s = [takeWhile is_num_char s]"
  by (subst GPS_RE_split.simps) (simp add: Let_def)

lemma GPS_RE_split_sep:
  assumes "dropWhile is_num_char s \<noteq> []"
  shows "GPS_RE_split s = takeWhile is_num_char s #
       GPS_RE_split (dropWhile (\<lambda>c. \<not> is_num_char c) (dropWhile is_num_char s))"
  by (subst GPS_RE_split.simps) (simp only: Let_def assms if_False)

lemma GPS_RE_split_Nil: "GPS_RE_split [] = [[]]"
  by (simp add: GPS_RE_split_end)

lemma GPS_RE_split_not_Nil: "GPS_RE_split s \<noteq> []"
  by (cases "dropWhile is_num_char s = []")
    (simp_all only: GPS_RE_split_end GPS_RE_split_sep list.distinct not_False_eq_True)

lemma GPS_RE_split_numeric:
  "f \<in> set (GPS_RE_split s) \<Longrightarrow> list_all is_num_char f"
proof (induction s rule: GPS_RE_split.induct)
  case (1 s)
  have tw: "list_all is_num_char (takeWhile is_num_char s)"
    by (auto simp add: list_all_iff dest: set_takeWhileD)
  show ?case
  proof (cases "dropWhile is_num_char s = []")
    case True
    from "1.prems" have "f = takeWhile is_num_char s"
      by (simp only: GPS_RE_split_end [OF True] list.set singleton_iff)
    with tw show ?thesis by simp
  next
    case False
    from "1.prems"
    have "f = takeWhile is_num_char s \<or>
          f \<in> set (GPS_RE_split (dropWhile (\<lambda>c. \<not> is_num_char c) (dropWhile is_num_char s)))"
      by (simp only: GPS_RE_split_sep [OF False] set_simps insert_iff)
    with tw "1.IH" [OF refl refl False] show ?thesis by blast
  qed
qed

lemma filter_dropWhile_not:
  "filter P (dropWhile (\<lambda>c. \<not> P c) xs) = filter P xs"
  by (induction xs) simp_all

lemma filter_split_takeWhile:
  "filter P xs = takeWhile P xs @ filter P (dropWhile P xs)"
  by (induction xs) simp_all

lemma GPS_RE_split_concat:
  "concat (GPS_RE_split s) = filter is_num_char s"
proof (induction s rule: GPS_RE_split.induct)
  case (1 s)
  show ?case
  proof (cases "dropWhile is_num_char s = []")
    case True
    have "concat (GPS_RE_split s) = takeWhile is_num_char s"
      by (simp only: GPS_RE_split_end [OF True] concat.simps append_Nil2)
    also have "\<dots> = filter is_num_char s"
      using filter_split_takeWhile [of is_num_char s]
      by (simp only: True filter.simps append_Nil2)
    finally show ?thesis .
  next
    case False
    have "concat (GPS_RE_split s) = takeWhile is_num_char s @
        concat (GPS_RE_split (dropWhile (\<lambda>c. \<not> is_num_char c) (dropWhile is_num_char s)))"
      by (simp only: GPS_RE_split_sep [OF False] concat.simps)
    also have "\<dots> = takeWhile is_num_char s @ filter is_num_char (dropWhile is_num_char s)"
      by (simp only: "1.IH" [OF refl refl False] filter_dropWhile_not)
    also have "\<dots> = filter is_num_char s"
      by (rule filter_split_takeWhile [symmetric])
    finally show ?thesis .
  qed
qed

lemma GPS_RE_split_trailing:
  "s \<noteq> [] \<Longrightarrow> \<not> is_num_char (last s) \<Longrightarrow> last (GPS_RE_split s) = []"
proof (induction s rule: GPS_RE_split.induct)
  case (1 s)
  let ?rest = "dropWhile is_num_char s"
  let ?next = "dropWhile (\<lambda>c. \<not> is_num_char c) ?rest"
  from "1.prems" have "\<exists>x\<in>set s. \<not> is_num_char x"
    using last_in_set by blast
  then have ne: "?rest \<noteq> []"
    by (simp only: dropWhile_eq_Nil_conv) blast
  note eq = GPS_RE_split_sep [OF ne]
  show ?case
  proof (cases "?next = []")
    case True
    show ?thesis
      by (simp only: eq True GPS_RE_split_Nil last.simps list.distinct if_False if_True simp_thms)
  next
    case False
    have "s = takeWhile is_num_char s @ ?rest"
      by (rule takeWhile_dropWhile_id [symmetric])
    then have "last s = last ?rest"
      using ne by (metis last_appendR)
    moreover have "?rest = takeWhile (\<lambda>c. \<not> is_num_char c) ?rest @ ?next"
      by (rule takeWhile_dropWhile_id [symmetric])
    then have "last ?rest = last ?next"
      using False by (metis last_appendR)
    ultimately have "\<not> is_num_char (last ?next)"
      using "1.prems"(2) by simp
    from "1.IH" [OF refl refl ne False this]
    show ?thesis
      by (simp only: eq last.simps GPS_RE_split_not_Nil if_False simp_thms)
  qed
qed

lemma GPS_RE_split_all_numeric:
  "list_all is_num_char s \<Longrightarrow> GPS_RE_split s = [s]"
  by (simp add: GPS_RE_split_end list_all_iff)

subsection \<open>\<^verbatim>\<open>float\<close> and \<^verbatim>\<open>degree_to_float\<close>\<close>

lemma py_float_Inl: "py_float f = Inl e \<Longrightarrow> e = ValueError"
  by (auto simp add: py_float_def Let_def split: if_splits)

lemma py_float_cases:
  obtains "py_float f = Inl ValueError" | r where "py_float f = Inr r"
  by (cases "py_float f") (auto dest: py_float_Inl)


lemma list_shape3:
  obtains "xs = []" | a where "xs = [a]" | a b where "xs = [a, b]"
    | a b c ys where "xs = a # b # c # ys"
proof (cases xs)
  case (Cons a as)
  note xs = this
  show ?thesis
  proof (cases as)
    case (Cons b bs)
    with xs that show ?thesis by (cases bs) auto
  qed (use xs that in auto)
qed (use that in auto)

lemma degree_to_float_three:
  assumes "GPS_RE_split s = c0 # c1 # c2 # others"
    and "py_float c0 = Inr D" and "py_float c1 = Inr M" and "py_float c2 = Inr S"
  shows "degree_to_float (PStr s) =
           Inr (if last s = CHR ''S'' \<or> last s = CHR ''W''
                then - (D + M / 60 + S / 3600) else D + M / 60 + S / 3600)"
proof -
  have "s \<noteq> []" using assms(1) by (auto simp add: GPS_RE_split_Nil)
  then show ?thesis
    by (simp add: degree_to_float_def list_index_def assms and_then_def)
qed

lemma degree_to_float_ValueError:
  "degree_to_float (PStr s) = Inl ValueError \<longleftrightarrow>
     (\<exists>f \<in> set (take 3 (GPS_RE_split s)). py_float f = Inl ValueError)"
proof -
  consider c0 where "GPS_RE_split s = [c0]"
    | c0 c1 where "GPS_RE_split s = [c0, c1]"
    | c0 c1 c2 others where "GPS_RE_split s = c0 # c1 # c2 # others"
    using GPS_RE_split_not_Nil [of s]
    by (cases "GPS_RE_split s" rule: list_shape3) auto
  then show ?thesis
  proof cases
    case 1
    then show ?thesis
      by (cases c0 rule: py_float_cases)
        (simp_all add: degree_to_float_def list_index_def and_then_def)
  next
    case 2
    then show ?thesis
      by (cases c0 rule: py_float_cases; cases c1 rule: py_float_cases)
        (simp_all add: degree_to_float_def list_index_def and_then_def)
  next
    case 3
    then have ne: "s \<noteq> []" by (auto simp add: GPS_RE_split_Nil)
    from 3 show ?thesis
      by (cases c0 rule: py_float_cases; cases c1 rule: py_float_cases;
          cases c2 rule: py_float_cases)
        (simp_all add: degree_to_float_def list_index_def and_then_def ne Let_def)
  qed
qed

lemma degree_to_float_IndexError:
  "degree_to_float (PStr s) = Inl IndexError \<longleftrightarrow>
     (length (GPS_RE_split s) < 3 \<and> (\<forall>f \<in> set (GPS_RE_split s). py_float f \<noteq> Inl ValueError))"
proof -
  consider c0 where "GPS_RE_split s = [c0]"
    | c0 c1 where "GPS_RE_split s = [c0, c1]"
    | c0 c1 c2 others where "GPS_RE_split s = c0 # c1 # c2 # others"
    using GPS_RE_split_not_Nil [of s]
    by (cases "GPS_RE_split s" rule: list_shape3) auto
  then show ?thesis
  proof cases
    case 1
    then show ?thesis
      by (cases c0 rule: py_float_cases)
        (simp_all add: degree_to_float_def list_index_def and_then_def)
  next
    case 2
    then show ?thesis
      by (cases c0 rule: py_float_cases; cases c1 rule: py_float_cases)
        (simp_all add: degree_to_float_def list_index_def and_then_def)
  next
    case 3
    then have ne: "s \<noteq> []" by (auto simp add: GPS_RE_split_Nil)
    from 3 show ?thesis
      by (cases c0 rule: py_float_cases; cases c1 rule: py_float_cases;
          cases c2 rule: py_float_cases)
        (simp_all add: degree_to_float_def list_index_def and_then_def ne Let_def)
  qed
qed


lemma GPS_RE_split_hd_nonempty:
  assumes "s \<noteq> []" and "is_num_char (hd s)"
  shows "hd (GPS_RE_split s) \<noteq> []"
proof -
  from assms have tw: "takeWhile is_num_char s \<noteq> []"
    by (cases s) simp_all
  show ?thesis
    by (cases "dropWhile is_num_char s = []")
      (simp_all only: GPS_RE_split_end GPS_RE_split_sep list.sel tw not_False_eq_True)
qed

lemma GPS_RE_split_interior:
  "0 < i \<Longrightarrow> Suc i < length (GPS_RE_split s) \<Longrightarrow> GPS_RE_split s ! i \<noteq> []"
proof (induction s arbitrary: i rule: GPS_RE_split.induct)
  case (1 s)
  let ?rest = "dropWhile is_num_char s"
  let ?next = "dropWhile (\<lambda>c. \<not> is_num_char c) ?rest"
  show ?case
  proof (cases "?rest = []")
    case True
    with "1.prems" show ?thesis
      by (simp only: GPS_RE_split_end [OF True]) simp
  next
    case False
    note eq = GPS_RE_split_sep [OF False]
    from "1.prems" obtain j where i: "i = Suc j" by (cases i) auto
    from "1.prems"(2) have len: "Suc j < length (GPS_RE_split ?next)"
      by (simp only: eq i) simp
    have nth: "GPS_RE_split s ! i = GPS_RE_split ?next ! j"
      by (simp only: eq i nth_Cons_Suc)
    show ?thesis
    proof (cases j)
      case 0
      have ne: "?next \<noteq> []"
      proof
        assume "?next = []"
        then have "GPS_RE_split ?next = [[]]" by (simp only: GPS_RE_split_Nil)
        with len show False by simp
      qed
      then have "is_num_char (hd ?next)"
        using hd_dropWhile [of "\<lambda>c. \<not> is_num_char c" ?rest] by blast
      with ne have "hd (GPS_RE_split ?next) \<noteq> []"
        by (rule GPS_RE_split_hd_nonempty)
      moreover have "GPS_RE_split ?next ! 0 = hd (GPS_RE_split ?next)"
        by (rule hd_conv_nth [symmetric]) (rule GPS_RE_split_not_Nil)
      ultimately show ?thesis by (simp only: nth 0 not_False_eq_True)
    next
      case (Suc k)
      then have "0 < j" by simp
      from "1.IH" [OF refl refl False this len] show ?thesis
        by (simp only: nth not_False_eq_True)
    qed
  qed
qed

lemma split_no_seconds:
  "GPS_RE_split no_seconds_example = [''40'', ''26'', []]"
  by code_simp

lemma split_two: "GPS_RE_split ''40 26'' = [''40'', ''26'']"
  by code_simp

lemma split_lat: "GPS_RE_split lat_example = [''40'', ''26'', ''46'', []]"
  by code_simp

lemma split_lon: "GPS_RE_split lon_example = [''79'', ''58'', ''56'', []]"
  by code_simp

lemma py_float_examples:
  "py_float ''40'' = Inr 40" "py_float ''26'' = Inr 26" "py_float ''46'' = Inr 46"
  "py_float ''79'' = Inr 79" "py_float ''58'' = Inr 58" "py_float ''56'' = Inr 56"
  "py_float [] = Inl ValueError"
  by code_simp+

lemma last_examples:
  "last lat_example = CHR ''N''" "last lon_example = CHR ''W''"
  "last no_seconds_example = CHR ''N''"
  by (simp_all add: lat_example_def lon_example_def no_seconds_example_def)

text \<open>
  Claim C3, as amended. \<^verbatim>\<open>degree_to_float\<close> splits its input on every maximal run of
  characters that are neither ASCII digits nor \<open>.\<close>, and keeps empty fragments: every
  fragment is made of digits and dots, the fragments together are the digits and dots
  of the input in order, no fragment strictly between the first and the last is empty,
  and an input that ends in a separator (such as a hemisphere letter) has an empty last
  fragment. It fails with \<^verbatim>\<open>IndexError\<close> exactly when the split has fewer than three
  fragments and \<^verbatim>\<open>float\<close> accepts each of them; it fails with \<^verbatim>\<open>ValueError\<close> exactly
  when \<^verbatim>\<open>float\<close> rejects one of the first three fragments (an empty one included).
\<close>

theorem degree_to_float_too_few:
  "(\<forall>f \<in> set (GPS_RE_split s). list_all is_num_char f) \<and>
   concat (GPS_RE_split s) = filter is_num_char s \<and>
   (\<forall>i. 0 < i \<and> Suc i < length (GPS_RE_split s) \<longrightarrow> GPS_RE_split s ! i \<noteq> []) \<and>
   (s \<noteq> [] \<and> \<not> is_num_char (last s) \<longrightarrow> last (GPS_RE_split s) = []) \<and>
   (degree_to_float (PStr s) = Inl IndexError \<longleftrightarrow>
      length (GPS_RE_split s) < 3 \<and>
      (\<forall>f \<in> set (GPS_RE_split s). py_float f \<noteq> Inl ValueError)) \<and>
   (degree_to_float (PStr s) = Inl ValueError \<longleftrightarrow>
      (\<exists>f \<in> set (take 3 (GPS_RE_split s)). py_float f = Inl ValueError))"
  using GPS_RE_split_numeric [of _ s] GPS_RE_split_concat [of s]
    GPS_RE_split_interior [of _ s] GPS_RE_split_trailing [of s]
    degree_to_float_IndexError [of s] degree_to_float_ValueError [of s]
  by blast

theorem degree_to_float_too_few_witness:
  "GPS_RE_split ''40 26'' = [''40'', ''26''] \<and>
   degree_to_float (PStr ''40 26'') = Inl IndexError \<and>
   GPS_RE_split no_seconds_example = [''40'', ''26'', []] \<and>
   last (GPS_RE_split no_seconds_example) = [] \<and>
   degree_to_float (PStr no_seconds_example) = Inl ValueError"
  using degree_to_float_too_few [of "''40 26''"] degree_to_float_too_few [of no_seconds_example]
  by (simp add: split_two split_no_seconds py_float_examples)

text \<open>
  The claim as stated fails on \<^verbatim>\<open>40d26'N\<close>, which lacks the seconds: the split is
  \<^verbatim>\<open>['40', '26', '']\<close>, the empty fragment is kept, and \<^verbatim>\<open>float('')\<close> raises
  \<^verbatim>\<open>ValueError\<close>, not \<^verbatim>\<open>IndexError\<close>.
\<close>

theorem degree_to_float_no_seconds_counterexample:
  "GPS_RE_split no_seconds_example = [''40'', ''26'', []] \<and>
   degree_to_float (PStr no_seconds_example) = Inl ValueError \<and>
   degree_to_float (PStr no_seconds_example) \<noteq> Inl IndexError"
proof -
  have "degree_to_float (PStr no_seconds_example) = Inl ValueError"
    by (simp add: degree_to_float_ValueError split_no_seconds py_float_examples)
  then show ?thesis by (simp add: split_no_seconds)
qed

text \<open>
  Claim C4. When the split of the string starts with three fragments that \<^verbatim>\<open>float\<close>
  reads as \<open>D\<close>, \<open>M\<close> and \<open>S\<close>, \<^verbatim>\<open>degree_to_float\<close> returns \<open>D + M/60 + S/3600\<close>,
  negated if and only if the last character of the string is \<open>S\<close> or \<open>W\<close>. On
  \<^verbatim>\<open>40d26'46"N\<close> the result is within \<open>10\<^sup>-\<^sup>6\<close> of \<open>40.446111\<close>, on \<^verbatim>\<open>79d58'56"W\<close> within
  \<open>10\<^sup>-\<^sup>6\<close> of \<open>-79.982222\<close>.
\<close>

theorem degree_to_float_value:
  "(GPS_RE_split s = c0 # c1 # c2 # others \<and>
    py_float c0 = Inr D \<and> py_float c1 = Inr M \<and> py_float c2 = Inr S \<longrightarrow>
      degree_to_float (PStr s) =
        Inr (if last s = CHR ''S'' \<or> last s = CHR ''W''
             then - (D + M / 60 + S / 3600) else D + M / 60 + S / 3600)) \<and>
   (\<exists>v. degree_to_float (PStr lat_example) = Inr v \<and> \<bar>v - 40.446111\<bar> < 1 / 10 ^ 6) \<and>
   (\<exists>v. degree_to_float (PStr lon_example) = Inr v \<and> \<bar>v - (- 79.982222)\<bar> < 1 / 10 ^ 6)"
proof (intro conjI impI)
  assume "GPS_RE_split s = c0 # c1 # c2 # others \<and>
    py_float c0 = Inr D \<and> py_float c1 = Inr M \<and> py_float c2 = Inr S"
  then show "degree_to_float (PStr s) =
        Inr (if last s = CHR ''S'' \<or> last s = CHR ''W''
             then - (D + M / 60 + S / 3600) else D + M / 60 + S / 3600)"
    by (intro degree_to_float_three) auto
next
  have "degree_to_float (PStr lat_example) = Inr (40 + 26 / 60 + 46 / 3600)"
    using degree_to_float_three [OF split_lat py_float_examples(1,2,3)]
    by (simp add: last_examples)
  moreover have "\<bar>(40 + 26 / 60 + 46 / 3600 :: real) - 40.446111\<bar> < 1 / 10 ^ 6"
    by simp
  ultimately show "\<exists>v. degree_to_float (PStr lat_example) = Inr v \<and> \<bar>v - 40.446111\<bar> < 1 / 10 ^ 6"
    by blast
next
  have "degree_to_float (PStr lon_example) = Inr (- (79 + 58 / 60 + 56 / 3600))"
    using degree_to_float_three [OF split_lon py_float_examples(4,5,6)]
    by (simp add: last_examples)
  moreover have "\<bar>(- (79 + 58 / 60 + 56 / 3600) :: real) - (- 79.982222)\<bar> < 1 / 10 ^ 6"
    by simp
  ultimately show "\<exists>v. degree_to_float (PStr lon_example) = Inr v \<and> \<bar>v - (- 79.982222)\<bar> < 1 / 10 ^ 6"
    by blast
qed

theorem degree_to_float_value_witness:
  "GPS_RE_split lat_example = [''40'', ''26'', ''46'', []] \<and>
   py_float ''40'' = Inr 40 \<and> py_float ''26'' = Inr 26 \<and> py_float ''46'' = Inr 46 \<and>
   degree_to_float (PStr lat_example) = Inr (40 + 26 / 60 + 46 / 3600) \<and>
   GPS_RE_split lon_example = [''79'', ''58'', ''56'', []] \<and>
   py_float ''79'' = Inr 79 \<and> py_float ''58'' = Inr 58 \<and> py_float ''56'' = Inr 56 \<and>
   degree_to_float (PStr lon_example) = Inr (- (79 + 58 / 60 + 56 / 3600))"
  using degree_to_float_value [of lat_example "''40''" "''26''" "''46''" "[[]]" 40 26 46]
    degree_to_float_value [of lon_example "''79''" "''58''" "''56''" "[[]]" 79 58 56]
  by (simp add: split_lat split_lon py_float_examples last_examples)

subsection \<open>Runs on the scenario\<close>


lemma normalize_scenario:
  "normalize_stats (PDict acc_scenario) =
     Inr (acc_scenario @ [(''mean'', PFloat 10), (''std_dev'', PFloat (sqrt 2))])"
proof -
  have n: "(4::int) \<noteq> 0" by simp
  have v: "variance 4 40 408 = 2" by (simp add: variance_def)
  show ?thesis
    unfolding normalize_stats_accumulator [OF is_accumulator_scenario n] v
    by (simp add: pow_half_nonneg dict_update_def acc_scenario_def)
qed

lemma image_row_scenario_plain:
  "\<not> gps a \<Longrightarrow> image_row env a p im_scenario = Inr row_scenario"
  by (simp add: image_row_def im_scenario_def getitem_def dict_getitem_def normalize_scenario
      dict_update_def row_scenario_def, simp add: acc_scenario_def)

lemma degree_lat: "degree_to_float (PStr lat_example) = Inr (72803 / 1800)"
  using degree_to_float_three [OF split_lat py_float_examples(1,2,3)]
  by (simp add: last_examples)

lemma degree_lon: "degree_to_float (PStr lon_example) = Inr (- (17996 / 225))"
  using degree_to_float_three [OF split_lon py_float_examples(4,5,6)]
  by (simp add: last_examples)

lemma add_gps_scenario_None:
  "add_gps_coords env_example row_scenario None =
     Inr (row_scenario @ [(''latitude'', PFloat (72803 / 1800)),
                          (''longitude'', PFloat (- (17996 / 225)))])"
  by (simp add: add_gps_coords_def row_scenario_def dict_getitem_def env_example_def
      exif_example_def list_index_def getitem_def degree_lat degree_lon)

lemma add_gps_scenario_Some:
  "add_gps_coords env_example row_scenario (Some ()) =
     Inr (row_scenario @ [(''latitude'', PFloat (72803 / 1800)),
                          (''longitude'', PFloat (- (17996 / 225))),
                          (''easting'', PFloat (- (17996 / 225))),
                          (''northing'', PFloat (72803 / 1800))])"
  by (simp add: add_gps_coords_def row_scenario_def dict_getitem_def env_example_def
      exif_example_def list_index_def getitem_def degree_lat degree_lon)

lemma doc_scenario_alt:
  "doc_scenario = PDict [(''image_stats'', PList [im_scenario]), (''cumulative'', PDict acc_scenario)]"
  by (simp add: doc_scenario_def)

lemma tot_scenario:
  "dict_update (acc_scenario @ [(''mean'', PFloat 10), (''std_dev'', PFloat (sqrt 2))])
     [(''path'', PStr ''cumulative'')] = tot_scenario"
  by (simp add: dict_update_def acc_scenario_def tot_scenario_def)

lemma main_scenario_plain:
  "main env_example \<lparr>gps = False, epsg = e\<rparr> doc_scenario =
     Inr \<lparr>columns = [''path'', ''width'', ''height'', ''min'', ''max'', ''mean'', ''std_dev''],
          rows = [[Some (PStr ''a.jpg''), Some (PInt 10), Some (PInt 10), Some (PInt 1),
                   Some (PInt 19), Some (PFloat 10), Some (PFloat (sqrt 2))],
                  [Some (PStr ''cumulative''), None, None, Some (PInt 1),
                   Some (PInt 19), Some (PFloat 10), Some (PFloat (sqrt 2))]]\<rparr>"
proof -
  have p: "make_proj env_example \<lparr>gps = False, epsg = e\<rparr> = Inr None"
    by (simp add: make_proj_def split: option.splits)
  have rows: "image_row env_example \<lparr>gps = False, epsg = e\<rparr> None im_scenario = Inr row_scenario"
    by (simp add: image_row_scenario_plain)
  show ?thesis
    unfolding main_def doc_scenario_alt
    by (simp add: p getitem_def dict_getitem_def py_iter_def rows normalize_scenario tot_scenario
        output_cols_def select_columns_def frame_columns_def, simp add: row_scenario_def tot_scenario_def acc_scenario_def)
qed

lemma main_scenario_gps:
  "main env_example \<lparr>gps = True, epsg = None\<rparr> doc_scenario =
     Inr \<lparr>columns = [''path'', ''width'', ''height'', ''min'', ''max'', ''mean'', ''std_dev'',
                     ''latitude'', ''longitude''],
          rows = [[Some (PStr ''a.jpg''), Some (PInt 10), Some (PInt 10), Some (PInt 1),
                   Some (PInt 19), Some (PFloat 10), Some (PFloat (sqrt 2)),
                   Some (PFloat (72803 / 1800)), Some (PFloat (- (17996 / 225)))],
                  [Some (PStr ''cumulative''), None, None, Some (PInt 1),
                   Some (PInt 19), Some (PFloat 10), Some (PFloat (sqrt 2)), None, None]]\<rparr>"
proof -
  have p: "make_proj env_example \<lparr>gps = True, epsg = None\<rparr> = Inr None"
    by (simp add: make_proj_def)
  have r: "image_row env_example \<lparr>gps = True, epsg = None\<rparr> None im_scenario =
      Inr (row_scenario @ [(''latitude'', PFloat (72803 / 1800)),
                           (''longitude'', PFloat (- (17996 / 225)))])"
    using add_gps_scenario_None
    by (simp add: image_row_def im_scenario_def getitem_def dict_getitem_def normalize_scenario
      dict_update_def row_scenario_def, simp add: acc_scenario_def)
  show ?thesis
    unfolding main_def doc_scenario_alt
    by (simp add: p getitem_def dict_getitem_def py_iter_def r normalize_scenario tot_scenario
        output_cols_def select_columns_def frame_columns_def, simp add: row_scenario_def tot_scenario_def acc_scenario_def)
qed

lemma main_scenario_epsg:
  "main env_example \<lparr>gps = True, epsg = Some 4326\<rparr> doc_scenario =
     Inr \<lparr>columns = [''path'', ''width'', ''height'', ''min'', ''max'', ''mean'', ''std_dev'',
                     ''latitude'', ''longitude'', ''easting'', ''northing''],
          rows = [[Some (PStr ''a.jpg''), Some (PInt 10), Some (PInt 10), Some (PInt 1),
                   Some (PInt 19), Some (PFloat 10), Some (PFloat (sqrt 2)),
                   Some (PFloat (72803 / 1800)), Some (PFloat (- (17996 / 225))),
                   Some (PFloat (- (17996 / 225))), Some (PFloat (72803 / 1800))],
                  [Some (PStr ''cumulative''), None, None, Some (PInt 1),
                   Some (PInt 19), Some (PFloat 10), Some (PFloat (sqrt 2)),
                   None, None, None, None]]\<rparr>"
proof -
  have p: "make_proj env_example \<lparr>gps = True, epsg = Some 4326\<rparr> = Inr (Some ())"
    by (simp add: make_proj_def env_example_def)
  have r: "image_row env_example \<lparr>gps = True, epsg = Some 4326\<rparr> (Some ()) im_scenario =
      Inr (row_scenario @ [(''latitude'', PFloat (72803 / 1800)),
                           (''longitude'', PFloat (- (17996 / 225))),
                           (''easting'', PFloat (- (17996 / 225))),
                           (''northing'', PFloat (72803 / 1800))])"
    using add_gps_scenario_Some
    by (simp add: image_row_def im_scenario_def getitem_def dict_getitem_def normalize_scenario
      dict_update_def row_scenario_def, simp add: acc_scenario_def)
  show ?thesis
    unfolding main_def doc_scenario_alt
    by (simp add: p getitem_def dict_getitem_def py_iter_def r normalize_scenario tot_scenario
        output_cols_def select_columns_def frame_columns_def, simp add: row_scenario_def tot_scenario_def acc_scenario_def)
qed

lemma main_scenario_epsg_zero:
  "main env_example \<lparr>gps = True, epsg = Some 0\<rparr> doc_scenario = Inl KeyError"
proof -
  have p: "make_proj env_example \<lparr>gps = True, epsg = Some 0\<rparr> = Inr None"
    by (simp add: make_proj_def)
  have r: "image_row env_example \<lparr>gps = True, epsg = Some 0\<rparr> None im_scenario =
      Inr (row_scenario @ [(''latitude'', PFloat (72803 / 1800)),
                           (''longitude'', PFloat (- (17996 / 225)))])"
    using add_gps_scenario_None
    by (simp add: image_row_def im_scenario_def getitem_def dict_getitem_def normalize_scenario
      dict_update_def row_scenario_def, simp add: acc_scenario_def)
  show ?thesis
    unfolding main_def doc_scenario_alt
    by (simp add: p getitem_def dict_getitem_def py_iter_def r normalize_scenario tot_scenario
        output_cols_def select_columns_def frame_columns_def, simp add: row_scenario_def tot_scenario_def acc_scenario_def)
qed

subsection \<open>The report assembler\<close>

lemma main_InrD:
  assumes "main env a doc = Inr t"
  obtains proj_t image_stats ims df cumulative tot where
    "make_proj env a = Inr proj_t"
    "getitem doc ''image_stats'' = Inr image_stats"
    "py_iter image_stats = Inr ims"
    "image_rows env a proj_t [] ims = Inr df"
    "getitem doc ''cumulative'' = Inr cumulative"
    "normalize_stats cumulative = Inr tot"
    "select_columns (output_cols a)
       (df @ [dict_update tot [(''path'', PStr ''cumulative'')]]) = Inr t"
  using assms unfolding main_def and_then_Inr_iff Let_def by blast

lemma select_columns_InrD:
  assumes "select_columns cols df = Inr t"
  shows "columns t = cols" and "rows t = map (\<lambda>r. map (map_of r) cols) df"
    and "set cols \<subseteq> frame_columns df"
  using assms by (auto simp add: select_columns_def split: if_splits)

lemma image_row_gps_cong:
  "gps a = gps b \<Longrightarrow> image_row env a p im = image_row env b p im"
  by (simp add: image_row_def cong: pyval.case_cong)

lemma image_rows_gps_cong:
  "gps a = gps b \<Longrightarrow> image_rows env a p df ims = image_rows env b p df ims"
  by (induction ims arbitrary: df) (simp_all add: image_row_gps_cong [of a b])

lemma image_rows_InrD:
  "image_rows env a p df ims = Inr out \<Longrightarrow>
     \<exists>rs. out = df @ rs \<and> list_all2 (\<lambda>im r. image_row env a p im = Inr r) ims rs"
proof (induction ims arbitrary: df)
  case Nil
  then show ?case by simp
next
  case (Cons im ims)
  from Cons.prems obtain r where r: "image_row env a p im = Inr r"
    and rest: "image_rows env a p (df @ [r]) ims = Inr out"
    by (auto simp add: and_then_Inr_iff)
  from Cons.IH [OF rest] obtain rs where "out = (df @ [r]) @ rs"
    and "list_all2 (\<lambda>im r. image_row env a p im = Inr r) ims rs"
    by blast
  with r have "out = df @ (r # rs) \<and>
      list_all2 (\<lambda>im r. image_row env a p im = Inr r) (im # ims) (r # rs)"
    by simp
  then show ?case by blast
qed

lemma normalize_stats_keys:
  assumes "normalize_stats st = Inr d'"
  obtains d where "st = PDict d" and "fst ` set d' = fst ` set d \<union> {''mean'', ''std_dev''}"
    and "\<And>k. k \<noteq> ''mean'' \<Longrightarrow> k \<noteq> ''std_dev'' \<Longrightarrow> map_of d' k = map_of d k"
proof -
  from assms obtain d m s where st: "st = PDict d"
    and d': "d' = dict_update d [(''mean'', m), (''std_dev'', s)]"
    by (rule normalize_stats_InrD)
  show ?thesis
  proof (rule that [OF st])
    show "fst ` set d' = fst ` set d \<union> {''mean'', ''std_dev''}"
      by (simp add: d' keys_dict_update)
    show "map_of d' k = map_of d k" if "k \<noteq> ''mean''" "k \<noteq> ''std_dev''" for k
      using that by (simp add: d' map_of_dict_update2)
  qed
qed

lemma add_gps_coords_None_keys:
  assumes "add_gps_coords env stat None = Inr r"
  shows "fst ` set r = fst ` set stat \<union> {''latitude'', ''longitude''}"
proof -
  from assms obtain lat lon where
    "r = AList.update ''longitude'' lon (AList.update ''latitude'' lat stat)"
    by (auto simp add: add_gps_coords_def and_then_Inr_iff Let_def)
  then show ?thesis
    by (simp add: dom_update insert_commute)
qed

lemma image_row_None_keys:
  assumes "image_row env a None im = Inr r"
  shows "fst ` set r \<subseteq> record_keys im \<union> {''mean'', ''std_dev'', ''latitude'', ''longitude''}"
proof -
  from assms obtain st stat where st: "getitem im ''stats'' = Inr st"
    and stat: "normalize_stats st = Inr stat"
    by (auto simp add: image_row_def and_then_Inr_iff)
  from st obtain d where im: "im = PDict d" and sd: "map_of d ''stats'' = Some st"
    by (auto simp add: getitem_Inr_iff)
  from stat obtain sd where stsd: "st = PDict sd"
    and keys: "fst ` set stat = fst ` set sd \<union> {''mean'', ''std_dev''}"
    by (rule normalize_stats_keys)
  let ?d2 = "dict_update (AList.update ''stats'' (PDict stat) d) stat"
  have rk: "record_keys im = fst ` set d \<union> fst ` set sd"
    by (simp add: record_keys_def im sd stsd)
  have "''stats'' \<in> fst ` set d"
    using sd by (metis domI dom_map_of_conv_image_fst)
  then have k2: "fst ` set ?d2 = fst ` set d \<union> fst ` set sd \<union> {''mean'', ''std_dev''}"
    by (auto simp add: keys_dict_update dom_update keys)
  from st have st': "getitem (PDict d) ''stats'' = Inr st"
    by (simp add: im)
  from assms have r: "(if gps a then add_gps_coords env ?d2 None else Inr ?d2) = Inr r"
    unfolding image_row_def im st' by (simp add: stat Let_def)
  show ?thesis
  proof (cases "gps a")
    case True
    with r have "add_gps_coords env ?d2 None = Inr r" by simp
    from add_gps_coords_None_keys [OF this] show ?thesis
      unfolding k2 rk by blast
  next
    case False
    with r have "r = ?d2" by simp
    then show ?thesis unfolding rk using k2 by blast
  qed
qed

text \<open>
  Claim C2, as amended. When a target coordinate-reference system is requested without
  geolocation, the run is not rejected: no transformer is constructed, and the run
  gives exactly what the same run without a target system gives (the target system is
  ignored).
\<close>

theorem main_epsg_without_gps:
  "make_proj env \<lparr>gps = False, epsg = e\<rparr> = Inr None \<and>
   main env \<lparr>gps = False, epsg = e\<rparr> doc = main env \<lparr>gps = False, epsg = None\<rparr> doc"
proof
  show p: "make_proj env \<lparr>gps = False, epsg = e\<rparr> = Inr None"
    by (simp add: make_proj_def split: option.splits)
  have q: "make_proj env \<lparr>gps = False, epsg = None\<rparr> = Inr None"
    by (simp add: make_proj_def)
  have rows: "image_rows env \<lparr>gps = False, epsg = e\<rparr> None [] ims =
      image_rows env \<lparr>gps = False, epsg = None\<rparr> None [] ims" for ims
    by (rule image_rows_gps_cong) simp
  have cols: "output_cols \<lparr>gps = False, epsg = e\<rparr> = output_cols \<lparr>gps = False, epsg = None\<rparr>"
    by (simp add: output_cols_def)
  show "main env \<lparr>gps = False, epsg = e\<rparr> doc = main env \<lparr>gps = False, epsg = None\<rparr> doc"
    by (simp add: main_def p q rows cols)
qed

theorem main_epsg_without_gps_witness:
  "make_proj env_example \<lparr>gps = False, epsg = Some 4326\<rparr> = Inr None \<and>
   main env_example \<lparr>gps = False, epsg = Some 4326\<rparr> doc_scenario =
     main env_example \<lparr>gps = False, epsg = None\<rparr> doc_scenario"
  using main_epsg_without_gps [of env_example "Some 4326" doc_scenario]
  by simp

text \<open>
  The claim as stated fails: with \<^verbatim>\<open>--epsg 4326\<close> and no \<^verbatim>\<open>--gps\<close> the run on the
  scenario document is not rejected; it returns the table with the seven base columns.
\<close>

theorem main_epsg_without_gps_counterexample:
  "main env_example \<lparr>gps = False, epsg = Some 4326\<rparr> doc_scenario =
     Inr \<lparr>columns = [''path'', ''width'', ''height'', ''min'', ''max'', ''mean'', ''std_dev''],
          rows = [[Some (PStr ''a.jpg''), Some (PInt 10), Some (PInt 10), Some (PInt 1),
                   Some (PInt 19), Some (PFloat 10), Some (PFloat (sqrt 2))],
                  [Some (PStr ''cumulative''), None, None, Some (PInt 1),
                   Some (PInt 19), Some (PFloat 10), Some (PFloat (sqrt 2))]]\<rparr>"
  by (rule main_scenario_plain)

text \<open>
  Claim C5. The table a run returns has exactly the columns \<open>path\<close>, \<open>width\<close>, \<open>height\<close>,
  \<open>min\<close>, \<open>max\<close>, \<open>mean\<close>, \<open>std_dev\<close> when geolocation is off; those and \<open>latitude\<close>,
  \<open>longitude\<close> when geolocation is on without a target system; those and \<open>easting\<close>,
  \<open>northing\<close> when a target system is given as well; and no other combination.
\<close>

theorem main_columns:
  assumes "main env a doc = Inr t"
  shows "columns t =
     (if \<not> gps a
        then [''path'', ''width'', ''height'', ''min'', ''max'', ''mean'', ''std_dev'']
      else if epsg a = None
        then [''path'', ''width'', ''height'', ''min'', ''max'', ''mean'', ''std_dev'',
              ''latitude'', ''longitude'']
      else [''path'', ''width'', ''height'', ''min'', ''max'', ''mean'', ''std_dev'',
            ''latitude'', ''longitude'', ''easting'', ''northing''])"
proof -
  from assms obtain df where
    "select_columns (output_cols a) df = Inr t"
    by (rule main_InrD)
  then have "columns t = output_cols a"
    by (rule select_columns_InrD)
  then show ?thesis
    by (simp add: output_cols_def)
qed

theorem main_columns_witness:
  "(\<exists>t. main env_example \<lparr>gps = False, epsg = None\<rparr> doc_scenario = Inr t \<and>
        columns t = [''path'', ''width'', ''height'', ''min'', ''max'', ''mean'', ''std_dev'']) \<and>
   (\<exists>t. main env_example \<lparr>gps = True, epsg = None\<rparr> doc_scenario = Inr t \<and>
        columns t = [''path'', ''width'', ''height'', ''min'', ''max'', ''mean'', ''std_dev'',
                     ''latitude'', ''longitude'']) \<and>
   (\<exists>t. main env_example \<lparr>gps = True, epsg = Some 4326\<rparr> doc_scenario = Inr t \<and>
        columns t = [''path'', ''width'', ''height'', ''min'', ''max'', ''mean'', ''std_dev'',
                     ''latitude'', ''longitude'', ''easting'', ''northing''])"
  using main_columns [OF main_scenario_plain [of None]] main_columns [OF main_scenario_gps]
    main_columns [OF main_scenario_epsg]
  by (simp add: main_scenario_plain main_scenario_gps main_scenario_epsg)

subsection \<open>Well-formed input, geolocation off\<close>

lemma map_of_key: "map_of d k \<noteq> None \<Longrightarrow> k \<in> fst ` set d"
  by (simp add: map_of_eq_None_iff)

lemma accumulator_ok_normalize:
  assumes "accumulator_ok sd"
  obtains d' where "normalize_stats (PDict sd) = Inr d'"
    and "fst ` set d' = fst ` set sd \<union> {''mean'', ''std_dev''}"
proof -
  from assms obtain n where c: "map_of sd ''count'' = Some (PInt n)" and n: "1 \<le> n"
    by (auto simp add: accumulator_ok_def split: option.splits pyval.splits)
  from assms obtain x y where "field_real sd ''sum'' = Some x" "field_real sd ''sum_2'' = Some y"
    by (auto simp add: accumulator_ok_def)
  with c n have acc: "is_accumulator sd n x y"
    by (simp add: is_accumulator_def)
  from n have "n \<noteq> 0" by simp
  from normalize_stats_accumulator [OF acc this] show ?thesis
    by (rule that) (simp add: keys_dict_update)
qed

lemma raw_record_ok_image_row:
  assumes "raw_record_ok im" and "\<not> gps a"
  obtains r where "image_row env a p im = Inr r"
    and "{''path'', ''width'', ''height'', ''min'', ''max'', ''mean'', ''std_dev''} \<subseteq> fst ` set r"
proof -
  from assms(1) obtain d where im: "im = PDict d"
    by (cases im) (simp_all add: raw_record_ok_def)
  with assms(1)
  have pwh: "map_of d ''path'' \<noteq> None" "map_of d ''width'' \<noteq> None" "map_of d ''height'' \<noteq> None"
    and stc: "(case map_of d ''stats'' of Some (PDict sd) \<Rightarrow> accumulator_ok sd | _ \<Rightarrow> False)"
    by (simp_all add: raw_record_ok_def)
  from stc obtain v where v: "map_of d ''stats'' = Some v"
    by (cases "map_of d ''stats''") simp_all
  with stc obtain sd where st: "map_of d ''stats'' = Some (PDict sd)" and ok: "accumulator_ok sd"
    by (cases v) simp_all
  from ok obtain stat where n: "normalize_stats (PDict sd) = Inr stat"
    and keys: "fst ` set stat = fst ` set sd \<union> {''mean'', ''std_dev''}"
    by (rule accumulator_ok_normalize)
  let ?r = "dict_update (AList.update ''stats'' (PDict stat) d) stat"
  have r: "image_row env a p im = Inr ?r"
    using assms(2) by (simp add: image_row_def im getitem_def dict_getitem_def st n Let_def)
  from ok have mm: "''min'' \<in> fst ` set sd" "''max'' \<in> fst ` set sd"
    by (simp_all add: accumulator_ok_def map_of_key)
  have "fst ` set ?r = insert ''stats'' (fst ` set d) \<union> fst ` set stat"
    by (simp add: keys_dict_update dom_update)
  then have "{''path'', ''width'', ''height'', ''min'', ''max'', ''mean'', ''std_dev''} \<subseteq> fst ` set ?r"
    by (simp add: keys pwh [THEN map_of_key] mm)
  with r show ?thesis by (rule that)
qed

lemma image_rows_returns:
  assumes "\<forall>im \<in> set ims. \<exists>r. image_row env a p im = Inr r"
  shows "\<exists>out. image_rows env a p df ims = Inr out"
  using assms
proof (induction ims arbitrary: df)
  case Nil
  show ?case by simp
next
  case (Cons im ims)
  then obtain r where r: "image_row env a p im = Inr r" by auto
  from Cons.IH [of "df @ [r]"] Cons.prems
  show ?case by (simp add: r)
qed

lemma main_plain_returns:
  assumes ims: "getitem doc ''image_stats'' = Inr (PList ims)" and ne: "ims \<noteq> []"
    and ok: "\<forall>im \<in> set ims. raw_record_ok im"
    and cum: "getitem doc ''cumulative'' = Inr (PDict cum)" and cok: "accumulator_ok cum"
    and g: "\<not> gps a"
  shows "\<exists>t. main env a doc = Inr t \<and> length (rows t) = length ims + 1"
proof -
  have p: "make_proj env a = Inr None"
    using g by (simp add: make_proj_def split: option.splits)
  have "\<forall>im \<in> set ims. \<exists>r. image_row env a None im = Inr r"
    using ok g by (meson raw_record_ok_image_row)
  then obtain df where df: "image_rows env a None [] ims = Inr df"
    using image_rows_returns by blast
  from image_rows_InrD [OF df]
  have all2: "list_all2 (\<lambda>im r. image_row env a None im = Inr r) ims df" by simp
  then have len: "length df = length ims"
    by (simp add: list_all2_lengthD)
  from cok obtain tot where tot: "normalize_stats (PDict cum) = Inr tot"
    by (rule accumulator_ok_normalize)
  let ?tot1 = "dict_update tot [(''path'', PStr ''cumulative'')]"
  from ne obtain im rest where c: "ims = im # rest" by (cases ims) auto
  with all2 obtain r rs where dfc: "df = r # rs" and r: "image_row env a None im = Inr r"
    by (auto simp add: list_all2_Cons1)
  from ok c have imok: "raw_record_ok im" by simp
  obtain r' where r': "image_row env a None im = Inr r'"
    and sub: "{''path'', ''width'', ''height'', ''min'', ''max'', ''mean'', ''std_dev''} \<subseteq> fst ` set r'"
    by (rule raw_record_ok_image_row [OF imok g])
  from r r' have rr: "r' = r" by simp
  have cols: "set (output_cols a) = {''path'', ''width'', ''height'', ''min'', ''max'', ''mean'', ''std_dev''}"
    using g by (simp add: output_cols_def)
  have "fst ` set r \<subseteq> frame_columns (df @ [?tot1])"
    unfolding frame_columns_def dfc by auto
  with sub have "set (output_cols a) \<subseteq> frame_columns (df @ [?tot1])"
    unfolding cols rr by (rule subset_trans)
  then have "select_columns (output_cols a) (df @ [?tot1]) =
      Inr \<lparr>columns = output_cols a, rows = map (\<lambda>r. map (map_of r) (output_cols a)) (df @ [?tot1])\<rparr>"
    by (simp add: select_columns_def)
  then have "main env a doc =
      Inr \<lparr>columns = output_cols a, rows = map (\<lambda>r. map (map_of r) (output_cols a)) (df @ [?tot1])\<rparr>"
    by (simp add: main_def p ims py_iter_def df cum tot)
  then show ?thesis by (simp add: len)
qed

lemma doc_scenario_ok:
  "getitem doc_scenario ''image_stats'' = Inr (PList [im_scenario])"
  "raw_record_ok im_scenario"
  "getitem doc_scenario ''cumulative'' = Inr (PDict acc_scenario)"
  "accumulator_ok acc_scenario"
  by (simp_all add: doc_scenario_def im_scenario_def getitem_def dict_getitem_def
      raw_record_ok_def accumulator_ok_def acc_scenario_def field_real_def as_num_def)

subsection \<open>The rows of the table\<close>

lemma main_rows_table:
  assumes "main env a doc = Inr t"
  shows "\<exists>proj_t ims cum tot.
     make_proj env a = Inr proj_t \<and>
     and_then (getitem doc ''image_stats'') py_iter = Inr ims \<and>
     getitem doc ''cumulative'' = Inr (PDict cum) \<and>
     normalize_stats (PDict cum) = Inr tot \<and>
     length (rows t) = length ims + 1 \<and>
     (\<forall>i < length ims. \<exists>r. image_row env a proj_t (ims ! i) = Inr r \<and>
                            rows t ! i = map (map_of r) (columns t)) \<and>
     rows t ! length ims =
       map (\<lambda>c. if c = ''path'' then Some (PStr ''cumulative'') else map_of tot c) (columns t) \<and>
     last (rows t) = rows t ! length ims \<and>
     (\<forall>c \<in> {''latitude'', ''longitude'', ''easting'', ''northing''}. map_of tot c = map_of cum c)"
proof -
  from assms obtain proj_t image_stats ims df cumulative tot where
    p: "make_proj env a = Inr proj_t"
    and g: "getitem doc ''image_stats'' = Inr image_stats"
    and it: "py_iter image_stats = Inr ims"
    and rws: "image_rows env a proj_t [] ims = Inr df"
    and c: "getitem doc ''cumulative'' = Inr cumulative"
    and n: "normalize_stats cumulative = Inr tot"
    and sel: "select_columns (output_cols a)
       (df @ [dict_update tot [(''path'', PStr ''cumulative'')]]) = Inr t"
    by (rule main_InrD)
  let ?tot1 = "dict_update tot [(''path'', PStr ''cumulative'')]"
  obtain cum where cum: "cumulative = PDict cum"
    and frame: "\<And>k. k \<noteq> ''mean'' \<Longrightarrow> k \<noteq> ''std_dev'' \<Longrightarrow> map_of tot k = map_of cum k"
    by (rule normalize_stats_keys [OF n]) blast
  from image_rows_InrD [OF rws]
  have all2: "list_all2 (\<lambda>im r. image_row env a proj_t im = Inr r) ims df"
    by simp
  then have len: "length df = length ims"
    by (simp add: list_all2_lengthD)
  note cols = select_columns_InrD(1) [OF sel]
  have rows_eq: "rows t = map (\<lambda>r. map (map_of r) (columns t)) (df @ [?tot1])"
    using select_columns_InrD(2) [OF sel] by (simp only: cols)
  have 1: "and_then (getitem doc ''image_stats'') py_iter = Inr ims"
    by (simp add: g it)
  have 2: "length (rows t) = length ims + 1"
    by (simp add: rows_eq len)
  have 3: "\<exists>r. image_row env a proj_t (ims ! i) = Inr r \<and>
             rows t ! i = map (map_of r) (columns t)" if "i < length ims" for i
  proof -
    from all2 that have "image_row env a proj_t (ims ! i) = Inr (df ! i)"
      by (rule list_all2_nthD)
    moreover from that have "rows t ! i = map (map_of (df ! i)) (columns t)"
      by (simp add: rows_eq len nth_append)
    ultimately show ?thesis by blast
  qed
  have tot1: "map_of ?tot1 c = (if c = ''path'' then Some (PStr ''cumulative'') else map_of tot c)"
    for c
    by (simp add: dict_update_def update_conv)
  have 4: "rows t ! length ims =
       map (\<lambda>c. if c = ''path'' then Some (PStr ''cumulative'') else map_of tot c) (columns t)"
    by (simp add: rows_eq nth_append len tot1 [abs_def])
  have 5: "last (rows t) = rows t ! length ims"
    by (simp add: rows_eq nth_append len)
  have 6: "\<forall>c \<in> {''latitude'', ''longitude'', ''easting'', ''northing''}. map_of tot c = map_of cum c"
    by (simp add: frame)
  from p 1 c [unfolded cum] n [unfolded cum] 2 3 4 5 6 show ?thesis
    by blast
qed

text \<open>
  Claim C6, as amended. Every table a run returns on \<open>n\<close> image records has \<open>n + 1\<close>
  rows, and on a well-formed input with \<open>n \<ge> 1\<close> image records and geolocation off the
  run does return one. Row \<open>i\<close> is the row the loop makes of image record \<open>i\<close>, so the
  input order is kept. The last row is the cumulative one: its \<open>path\<close> is
  \<^verbatim>\<open>cumulative\<close>, and its \<open>latitude\<close>, \<open>longitude\<close>, \<open>easting\<close> and \<open>northing\<close> are what
  the cumulative dictionary of the input holds under these keys (nothing, for an
  Accumulator): the run never writes them.
\<close>

theorem main_rows:
  "(main env a doc = Inr t \<longrightarrow>
     (\<exists>proj_t ims cum tot.
        make_proj env a = Inr proj_t \<and>
        and_then (getitem doc ''image_stats'') py_iter = Inr ims \<and>
        getitem doc ''cumulative'' = Inr (PDict cum) \<and>
        normalize_stats (PDict cum) = Inr tot \<and>
        length (rows t) = length ims + 1 \<and>
        (\<forall>i < length ims. \<exists>r. image_row env a proj_t (ims ! i) = Inr r \<and>
                               rows t ! i = map (map_of r) (columns t)) \<and>
        rows t ! length ims =
          map (\<lambda>c. if c = ''path'' then Some (PStr ''cumulative'') else map_of tot c)
            (columns t) \<and>
        last (rows t) = rows t ! length ims \<and>
        (\<forall>c \<in> {''latitude'', ''longitude'', ''easting'', ''northing''}.
           map_of tot c = map_of cum c))) \<and>
   (getitem doc ''image_stats'' = Inr (PList recs) \<and> recs \<noteq> [] \<and>
    (\<forall>im \<in> set recs. raw_record_ok im) \<and>
    getitem doc ''cumulative'' = Inr (PDict acc) \<and> accumulator_ok acc \<and> \<not> gps a \<longrightarrow>
      (\<exists>t. main env a doc = Inr t \<and> length (rows t) = length recs + 1))"
proof (intro conjI impI)
  assume "main env a doc = Inr t"
  then show "\<exists>proj_t ims cum tot.
        make_proj env a = Inr proj_t \<and>
        and_then (getitem doc ''image_stats'') py_iter = Inr ims \<and>
        getitem doc ''cumulative'' = Inr (PDict cum) \<and>
        normalize_stats (PDict cum) = Inr tot \<and>
        length (rows t) = length ims + 1 \<and>
        (\<forall>i < length ims. \<exists>r. image_row env a proj_t (ims ! i) = Inr r \<and>
                               rows t ! i = map (map_of r) (columns t)) \<and>
        rows t ! length ims =
          map (\<lambda>c. if c = ''path'' then Some (PStr ''cumulative'') else map_of tot c)
            (columns t) \<and>
        last (rows t) = rows t ! length ims \<and>
        (\<forall>c \<in> {''latitude'', ''longitude'', ''easting'', ''northing''}.
           map_of tot c = map_of cum c)"
    by (rule main_rows_table)
next
  assume wf: "getitem doc ''image_stats'' = Inr (PList recs) \<and> recs \<noteq> [] \<and>
    (\<forall>im \<in> set recs. raw_record_ok im) \<and>
    getitem doc ''cumulative'' = Inr (PDict acc) \<and> accumulator_ok acc \<and> \<not> gps a"
  then have 1: "getitem doc ''image_stats'' = Inr (PList recs)" and 2: "recs \<noteq> []"
    and 3: "\<forall>im \<in> set recs. raw_record_ok im"
    and 4: "getitem doc ''cumulative'' = Inr (PDict acc)"
    and 5: "accumulator_ok acc" and 6: "\<not> gps a"
    by blast+
  show "\<exists>t. main env a doc = Inr t \<and> length (rows t) = length recs + 1"
    by (rule main_plain_returns [OF 1 2 3 4 5 6])
qed

theorem main_rows_witness:
  "(\<exists>t. main env_example \<lparr>gps = True, epsg = Some 4326\<rparr> doc_scenario = Inr t \<and>
        length (rows t) = 2 \<and>
        rows t ! 0 = [Some (PStr ''a.jpg''), Some (PInt 10), Some (PInt 10), Some (PInt 1),
                      Some (PInt 19), Some (PFloat 10), Some (PFloat (sqrt 2)),
                      Some (PFloat (72803 / 1800)), Some (PFloat (- (17996 / 225))),
                      Some (PFloat (- (17996 / 225))), Some (PFloat (72803 / 1800))] \<and>
        last (rows t) = [Some (PStr ''cumulative''), None, None, Some (PInt 1),
                         Some (PInt 19), Some (PFloat 10), Some (PFloat (sqrt 2)),
                         None, None, None, None]) \<and>
   getitem doc_scenario ''image_stats'' = Inr (PList [im_scenario]) \<and>
   raw_record_ok im_scenario \<and>
   getitem doc_scenario ''cumulative'' = Inr (PDict acc_scenario) \<and>
   accumulator_ok acc_scenario \<and>
   (\<exists>t. main env_example \<lparr>gps = False, epsg = None\<rparr> doc_scenario = Inr t \<and>
        length (rows t) = length [im_scenario] + 1)"
proof -
  note r = main_rows [of env_example "\<lparr>gps = False, epsg = None\<rparr>" doc_scenario _
      "[im_scenario]" acc_scenario]
  from r [THEN conjunct2] doc_scenario_ok
  have "\<exists>t. main env_example \<lparr>gps = False, epsg = None\<rparr> doc_scenario = Inr t \<and>
        length (rows t) = length [im_scenario] + 1"
    by simp
  with main_rows [THEN conjunct1, THEN mp, OF main_scenario_epsg] doc_scenario_ok
  show ?thesis
    by (simp add: main_scenario_epsg)
qed

lemma main_no_images:
  assumes ims: "getitem doc ''image_stats'' = Inr (PList [])"
    and cum: "getitem doc ''cumulative'' = Inr (PDict cum)" and cok: "accumulator_ok cum"
    and w: "''width'' \<notin> fst ` set cum" and p: "make_proj env a = Inr proj_t"
  shows "main env a doc = Inl KeyError"
proof -
  from cok obtain tot where tot: "normalize_stats (PDict cum) = Inr tot"
    and keys: "fst ` set tot = fst ` set cum \<union> {''mean'', ''std_dev''}"
    by (rule accumulator_ok_normalize)
  let ?tot1 = "dict_update tot [(''path'', PStr ''cumulative'')]"
  from w have "''width'' \<notin> frame_columns [?tot1]"
    by (simp add: frame_columns_def keys_dict_update keys)
  moreover have "''width'' \<in> set (output_cols a)"
    by (simp add: output_cols_def Let_def)
  ultimately have "\<not> set (output_cols a) \<subseteq> frame_columns [?tot1]"
    by (rule_tac notI) (erule notE, erule subsetD)
  then have "select_columns (output_cols a) [?tot1] = Inl KeyError"
    by (simp only: select_columns_def if_False)
  then show ?thesis
    by (simp add: main_def p ims py_iter_def cum tot)
qed

text \<open>
  The claim as stated fails when there is no image record: on the document with an empty
  \<^verbatim>\<open>image_stats\<close> and the cumulative accumulator of the scenario no row has a \<open>width\<close> or
  a \<open>height\<close>, the selection of the columns raises \<^verbatim>\<open>KeyError\<close>, and there is no output of
  \<open>0 + 1\<close> rows.
\<close>

theorem main_rows_no_images_counterexample:
  "getitem doc_no_images ''image_stats'' = Inr (PList []) \<and>
   getitem doc_no_images ''cumulative'' = Inr (PDict acc_scenario) \<and>
   accumulator_ok acc_scenario \<and>
   main env_example \<lparr>gps = False, epsg = None\<rparr> doc_no_images = Inl KeyError"
proof -
  have 1: "getitem doc_no_images ''image_stats'' = Inr (PList [])"
    and 2: "getitem doc_no_images ''cumulative'' = Inr (PDict acc_scenario)"
    by (simp_all add: doc_no_images_def getitem_def dict_getitem_def)
  have 3: "accumulator_ok acc_scenario" by (rule doc_scenario_ok)
  have 4: "''width'' \<notin> fst ` set acc_scenario" by (simp add: acc_scenario_def)
  have 5: "make_proj env_example \<lparr>gps = False, epsg = None\<rparr> = Inr None"
    by (simp add: make_proj_def)
  from main_no_images [OF 1 2 3 4 5] 1 2 3 show ?thesis by simp
qed

lemma input_keys_scenario:
  "input_keys doc_scenario =
     {''path'', ''width'', ''height'', ''stats'', ''count'', ''sum'', ''sum_2'', ''min'', ''max''}"
  by (auto simp add: input_keys_def doc_scenario_def im_scenario_def getitem_def
      dict_getitem_def py_iter_def record_keys_def acc_scenario_def)

text \<open>
  Claim C7. With geolocation on and the target system \<open>0\<close>, on an input that does not
  bring a key \<open>easting\<close> along: no transformer is constructed; no row receives an
  \<open>easting\<close> or a \<open>northing\<close>; the selected columns still include \<open>easting\<close> and
  \<open>northing\<close>; so once all rows are assembled the selection of the columns fails with
  \<^verbatim>\<open>KeyError\<close>, and the run never returns a table.
\<close>

theorem main_epsg_zero:
  assumes "gps a" and "epsg a = Some 0" and "''easting'' \<notin> input_keys doc"
  shows "make_proj env a = Inr None \<and>
         ''easting'' \<in> set (output_cols a) \<and> ''northing'' \<in> set (output_cols a) \<and>
         (\<forall>im r k. image_row env a None im = Inr r \<and>
                     (k = ''easting'' \<or> k = ''northing'') \<and> k \<notin> record_keys im \<longrightarrow>
                   map_of r k = None) \<and>
         (\<forall>ims df tot.
            and_then (getitem doc ''image_stats'') py_iter = Inr ims \<and>
            image_rows env a None [] ims = Inr df \<and>
            and_then (getitem doc ''cumulative'') normalize_stats = Inr tot \<longrightarrow>
              main env a doc = Inl KeyError) \<and>
         (\<forall>t. main env a doc \<noteq> Inr t)"
proof (intro conjI allI impI)
  show p: "make_proj env a = Inr None"
    using assms by (simp add: make_proj_def)
  show "''easting'' \<in> set (output_cols a)" "''northing'' \<in> set (output_cols a)"
    using assms by (simp_all add: output_cols_def)
  then have cols: "''easting'' \<in> set (output_cols a)" by simp
  show "map_of r k = None"
    if "image_row env a None im = Inr r \<and>
        (k = ''easting'' \<or> k = ''northing'') \<and> k \<notin> record_keys im" for im r k
  proof -
    from that image_row_None_keys [of env a im r]
    have "k \<notin> fst ` set r" by auto
    then show ?thesis by (simp add: map_of_eq_None_iff)
  qed
  have no_col: "''easting'' \<notin> frame_columns (df @ [dict_update tot [(''path'', PStr ''cumulative'')]])"
    if ims: "and_then (getitem doc ''image_stats'') py_iter = Inr ims"
      and df: "image_rows env a None [] ims = Inr df"
      and tot: "and_then (getitem doc ''cumulative'') normalize_stats = Inr tot"
    for ims df tot
  proof -
    from image_rows_InrD [OF df]
    have all2: "list_all2 (\<lambda>im r. image_row env a None im = Inr r) ims df" by simp
    have "''easting'' \<notin> fst ` set r" if "r \<in> set df" for r
    proof -
      from that obtain i where i: "i < length df" "r = df ! i"
        by (auto simp add: in_set_conv_nth)
      from all2 have len: "length ims = length df"
        by (rule list_all2_lengthD)
      from all2 i(1) have "image_row env a None (ims ! i) = Inr (df ! i)"
        by (rule list_all2_nthD2)
      with i have im: "ims ! i \<in> set ims" "image_row env a None (ims ! i) = Inr r"
        by (simp_all add: len)
      from im(1) ims assms(3) have "''easting'' \<notin> record_keys (ims ! i)"
        by (auto simp add: input_keys_def)
      with image_row_None_keys [OF im(2)] show ?thesis by auto
    qed
    moreover have "''easting'' \<notin> fst ` set (dict_update tot [(''path'', PStr ''cumulative'')])"
    proof -
      from tot obtain cumulative where c: "getitem doc ''cumulative'' = Inr cumulative"
        and n: "normalize_stats cumulative = Inr tot"
        by (auto simp add: and_then_Inr_iff)
      from n obtain cum where cum: "cumulative = PDict cum"
        and keys: "fst ` set tot = fst ` set cum \<union> {''mean'', ''std_dev''}"
        by (rule normalize_stats_keys)
      from assms(3) c cum have "''easting'' \<notin> fst ` set cum"
        by (simp add: input_keys_def)
      then show ?thesis
        by (simp add: keys_dict_update keys)
    qed
    ultimately show ?thesis
      by (auto simp add: frame_columns_def)
  qed
  show "main env a doc = Inl KeyError"
    if "and_then (getitem doc ''image_stats'') py_iter = Inr ims \<and>
        image_rows env a None [] ims = Inr df \<and>
        and_then (getitem doc ''cumulative'') normalize_stats = Inr tot" for ims df tot
  proof -
    from that have ims: "and_then (getitem doc ''image_stats'') py_iter = Inr ims"
      and df: "image_rows env a None [] ims = Inr df"
      and tot: "and_then (getitem doc ''cumulative'') normalize_stats = Inr tot"
      by simp_all
    from ims obtain image_stats where g: "getitem doc ''image_stats'' = Inr image_stats"
      and it: "py_iter image_stats = Inr ims"
      by (auto simp add: and_then_Inr_iff)
    from tot obtain cumulative where c: "getitem doc ''cumulative'' = Inr cumulative"
      and n: "normalize_stats cumulative = Inr tot"
      by (auto simp add: and_then_Inr_iff)
    from no_col [OF ims df tot] cols
    have "select_columns (output_cols a)
        (df @ [dict_update tot [(''path'', PStr ''cumulative'')]]) = Inl KeyError"
      by (auto simp add: select_columns_def)
    then show ?thesis
      by (simp add: main_def p g it df c n)
  qed
  show "main env a doc \<noteq> Inr t" for t
  proof
    assume "main env a doc = Inr t"
    then obtain proj_t image_stats ims df cumulative tot where
      p': "make_proj env a = Inr proj_t"
      and g: "getitem doc ''image_stats'' = Inr image_stats"
      and it: "py_iter image_stats = Inr ims"
      and rws: "image_rows env a proj_t [] ims = Inr df"
      and c: "getitem doc ''cumulative'' = Inr cumulative"
      and n: "normalize_stats cumulative = Inr tot"
      and sel: "select_columns (output_cols a)
         (df @ [dict_update tot [(''path'', PStr ''cumulative'')]]) = Inr t"
      by (rule main_InrD)
    from p p' have "proj_t = None" by simp
    with rws have df: "image_rows env a None [] ims = Inr df" by simp
    have i1: "and_then (getitem doc ''image_stats'') py_iter = Inr ims"
      by (simp add: g it)
    have i3: "and_then (getitem doc ''cumulative'') normalize_stats = Inr tot"
      by (simp add: c n)
    have "''easting'' \<notin> frame_columns (df @ [dict_update tot [(''path'', PStr ''cumulative'')]])"
      by (rule no_col [OF i1 df i3])
    moreover from select_columns_InrD(3) [OF sel] cols
    have "''easting'' \<in> frame_columns (df @ [dict_update tot [(''path'', PStr ''cumulative'')]])"
      by blast
    ultimately show False by simp
  qed
qed

theorem main_epsg_zero_witness:
  "gps \<lparr>gps = True, epsg = Some 0\<rparr> \<and> epsg \<lparr>gps = True, epsg = Some 0\<rparr> = Some 0 \<and>
   ''easting'' \<notin> input_keys doc_scenario \<and>
   make_proj env_example \<lparr>gps = True, epsg = Some 0\<rparr> = Inr None \<and>
   ''easting'' \<in> set (output_cols \<lparr>gps = True, epsg = Some 0\<rparr>) \<and>
   main env_example \<lparr>gps = True, epsg = Some 0\<rparr> doc_scenario = Inl KeyError"
proof -
  have k: "''easting'' \<notin> input_keys doc_scenario"
    by (simp add: input_keys_scenario)
  have g: "gps \<lparr>gps = True, epsg = Some 0\<rparr>" and e: "epsg \<lparr>gps = True, epsg = Some 0\<rparr> = Some 0"
    by simp_all
  from main_epsg_zero [OF g e k, of env_example] k main_scenario_epsg_zero
  show ?thesis by simp
qed

end
